theory Spec2Isabelle
  imports Complex_Main
begin

section \<open>The boss server (server/server.js) as a state machine\<close>

text \<open>
  The file \<^verbatim>\<open>server/server.js\<close> holds two snapshots of the server, one after the other.
  The theory embeds the later one (the one with \<^verbatim>\<open>slots\<close>, \<^verbatim>\<open>hpDamageEnabled\<close> and the
  per-slot WLED segments), handler by handler. Every handler is a function from the
  process state before a request to the HTTP response and the process state after it.
\<close>

subsection \<open>JavaScript values\<close>

text \<open>
  A JavaScript number is a double. The model keeps the three special values apart and
  reads every finite double as the rational it denotes; \<^verbatim>\<open>-0\<close> is \<open>Finite 0\<close> (the
  handlers only compare, floor and take minima, which do not tell the two zeros apart).
\<close>

datatype jsnum = NaN | PosInf | NegInf | Finite rat

text \<open>
  A request body as \<^verbatim>\<open>express.json()\<close> leaves it in \<^verbatim>\<open>req.body\<close>: a parsed JSON value, or
  \<^verbatim>\<open>undefined\<close>. An object is the list of its own properties (its keys are distinct after
  parsing).
\<close>

datatype jsval =
    JUndefined
  | JNull
  | JBool bool
  | JNum jsnum
  | JStr string
  | JArr "jsval list"
  | JObj "(string \<times> jsval) list"

definition num :: "int \<Rightarrow> jsval" where
  "num n = JNum (Finite (of_int n))"

text \<open>\<^verbatim>\<open>Boolean(v)\<close>, the truthiness of a value.\<close>

fun Boolean_js :: "jsval \<Rightarrow> bool" where
  "Boolean_js JUndefined = False"
| "Boolean_js JNull = False"
| "Boolean_js (JBool b) = b"
| "Boolean_js (JNum NaN) = False"
| "Boolean_js (JNum (Finite q)) = (q \<noteq> 0)"
| "Boolean_js (JNum PosInf) = True"
| "Boolean_js (JNum NegInf) = True"
| "Boolean_js (JStr s) = (s \<noteq> [])"
| "Boolean_js (JArr xs) = True"
| "Boolean_js (JObj kvs) = True"

text \<open>
  \<^verbatim>\<open>v.k\<close> for the property names the handlers read (\<^verbatim>\<open>type\<close>, \<^verbatim>\<open>slots\<close>, \<^verbatim>\<open>hp\<close>,
  \<^verbatim>\<open>enabled\<close>): an own property of an object, \<^verbatim>\<open>undefined\<close> on an array or a primitive.
  The handlers never read a property of \<^verbatim>\<open>null\<close> or \<^verbatim>\<open>undefined\<close>: they write
  \<^verbatim>\<open>req.body || {}\<close> or \<^verbatim>\<open>req.body?.k\<close>, which are \<open>or_empty\<close> and \<open>opt_prop\<close>.
\<close>

fun get_prop :: "jsval \<Rightarrow> string \<Rightarrow> jsval" where
  "get_prop (JObj kvs) k = (case map_of kvs k of Some v \<Rightarrow> v | None \<Rightarrow> JUndefined)"
| "get_prop v k = JUndefined"

definition or_empty :: "jsval \<Rightarrow> jsval" where
  "or_empty v = (if Boolean_js v then v else JObj [])"

fun opt_prop :: "jsval \<Rightarrow> string \<Rightarrow> jsval" where
  "opt_prop JUndefined k = JUndefined"
| "opt_prop JNull k = JUndefined"
| "opt_prop v k = get_prop v k"

text \<open>
  \<^verbatim>\<open>Number(v)\<close> returns a number or throws a \<^verbatim>\<open>TypeError\<close>. On a primitive it returns. On an
  object it converts the object to a primitive first (\<^verbatim>\<open>valueOf\<close>, then \<^verbatim>\<open>toString\<close>). The
  properties of a parsed JSON object are never functions, and the inherited \<^verbatim>\<open>valueOf\<close>
  returns the object itself, so the outcome hangs on \<^verbatim>\<open>toString\<close>: an object with an own
  property of that name has no callable one and the conversion throws; any other object
  becomes the text \<^verbatim>\<open>[object Object]\<close>, which is not a number. On a string ECMAScript parses
  the text (\<^verbatim>\<open>StringToNumber\<close>), on an array the text of its elements joined by commas, which
  throws when an element's conversion does; that part of the language is the parameter
  \<open>str2num\<close>, so that every theorem holds whatever it computes.
\<close>

datatype js_error = TypeError

fun Number_js :: "(jsval \<Rightarrow> js_error + jsnum) \<Rightarrow> jsval \<Rightarrow> js_error + jsnum" where
  "Number_js str2num JUndefined = Inr NaN"
| "Number_js str2num JNull = Inr (Finite 0)"
| "Number_js str2num (JBool b) = Inr (if b then Finite 1 else Finite 0)"
| "Number_js str2num (JNum n) = Inr n"
| "Number_js str2num (JObj kvs) =
     (if ''toString'' \<in> set (map fst kvs) then Inl TypeError else Inr NaN)"
| "Number_js str2num (JStr str) = str2num (JStr str)"
| "Number_js str2num (JArr xs) = str2num (JArr xs)"

subsection \<open>Configuration, events and state\<close>

definition SLOT_COUNT :: nat where
  "SLOT_COUNT = 7"

definition MAX_RECENT_EVENTS :: nat where
  "MAX_RECENT_EVENTS = 20"

text \<open>
  The constants read from the environment at start-up. \<^verbatim>\<open>Number(env) || 100\<close> is never
  \<open>0\<close>; the theorems that need more say so (\<open>config_ok\<close>: positive integers, as the
  deployment's \<^verbatim>\<open>.env\<close> gives them). A non-empty \<open>WLED_URL\<close> is taken to parse as a URL.
\<close>

record config =
  BOSS_MAX_HP :: int
  HP_PER_CRYSTAL :: int
  WLED_URL :: string

definition config_ok :: "config \<Rightarrow> bool" where
  "config_ok cfg = (0 < BOSS_MAX_HP cfg \<and> 0 < HP_PER_CRYSTAL cfg)"

text \<open>The defaults of the source: \<^verbatim>\<open>|| 100\<close>, \<^verbatim>\<open>|| 10\<close>, \<^verbatim>\<open>|| ''\<close>.\<close>

definition default_config :: config where
  "default_config = \<lparr>BOSS_MAX_HP = 100, HP_PER_CRYSTAL = 10, WLED_URL = []\<rparr>"

text \<open>The records of \<^verbatim>\<open>recentEvents\<close>, one constructor for each \<^verbatim>\<open>type\<close>; the last field is \<^verbatim>\<open>ts\<close>.\<close>

datatype event =
    crystal_insert nat int int
  | crystal_remove nat int
  | admin_hp int int
  | admin_hp_reduce int int int
  | admin_hp_damage bool int
  | admin_reset int

record game_state =
  bossHp :: int
  maxHp :: int
  crystalCount :: int
  totalCrystalsReceived :: int
  slots :: "bool list"
  recentEvents :: "event list"
  gameOver :: bool
  hpDamageEnabled :: bool

definition initial_state :: "config \<Rightarrow> game_state" where
  "initial_state cfg =
     \<lparr>bossHp = BOSS_MAX_HP cfg,
      maxHp = BOSS_MAX_HP cfg,
      crystalCount = 0,
      totalCrystalsReceived = 0,
      slots = replicate SLOT_COUNT False,
      recentEvents = [],
      gameOver = False,
      hpDamageEnabled = True\<rparr>"

text \<open>\<^verbatim>\<open>unshift\<close>, then \<^verbatim>\<open>pop\<close> when the log is longer than \<open>MAX_RECENT_EVENTS\<close>.\<close>

definition addEvent :: "event \<Rightarrow> game_state \<Rightarrow> game_state" where
  "addEvent ev st =
     (let unshifted = ev # recentEvents st
      in st\<lparr>recentEvents :=
              (if length unshifted > MAX_RECENT_EVENTS then butlast unshifted else unshifted)\<rparr>)"

subsection \<open>JSON sent to clients\<close>

fun event_json :: "event \<Rightarrow> jsval" where
  "event_json (crystal_insert i d t) =
     JObj [(''type'', JStr ''crystal_insert''), (''slot'', num (int i)), (''damage'', num d), (''ts'', num t)]"
| "event_json (crystal_remove i t) =
     JObj [(''type'', JStr ''crystal_remove''), (''slot'', num (int i)), (''ts'', num t)]"
| "event_json (admin_hp h t) =
     JObj [(''type'', JStr ''admin_hp''), (''hp'', num h), (''ts'', num t)]"
| "event_json (admin_hp_reduce d h t) =
     JObj [(''type'', JStr ''admin_hp_reduce''), (''damage'', num d), (''hp'', num h), (''ts'', num t)]"
| "event_json (admin_hp_damage e t) =
     JObj [(''type'', JStr ''admin_hp_damage''), (''enabled'', JBool e), (''ts'', num t)]"
| "event_json (admin_reset t) =
     JObj [(''type'', JStr ''admin_reset''), (''ts'', num t)]"

definition getState_props :: "game_state \<Rightarrow> (string \<times> jsval) list" where
  "getState_props st =
     [(''bossHp'', num (bossHp st)),
      (''maxHp'', num (maxHp st)),
      (''crystalCount'', num (crystalCount st)),
      (''totalCrystalsReceived'', num (totalCrystalsReceived st)),
      (''slots'', JArr (map JBool (slots st))),
      (''recentEvents'', JArr (map event_json (recentEvents st))),
      (''gameOver'', JBool (gameOver st)),
      (''hpDamageEnabled'', JBool (hpDamageEnabled st))]"

definition getState :: "game_state \<Rightarrow> jsval" where
  "getState st = JObj (getState_props st)"

subsection \<open>The process: game state, lighting adapter, sockets\<close>

text \<open>
  A request to the WLED device completes later, outside the handler that sent it, and
  then runs the callback it was given. \<open>wled_cb\<close> names the three callbacks of the source
  with the slot vector their closure holds: none, the one passed by \<^verbatim>\<open>initWLEDSegments\<close>
  with step 1, and the one it passes with step 2.
\<close>

datatype wled_cb = no_cb | step1_done "bool list" | step2_done "bool list"

record world =
  state :: game_state
  wledSegsReady :: bool
  wled_sent :: "jsval list"
  wled_pending :: "wled_cb list"
  broadcasts :: "jsval list"

definition initial_world :: "config \<Rightarrow> world" where
  "initial_world cfg =
     \<lparr>state = initial_state cfg,
      wledSegsReady = False,
      wled_sent = [],
      wled_pending = [],
      broadcasts = []\<rparr>"

definition broadcastState :: "world \<Rightarrow> world" where
  "broadcastState w = w\<lparr>broadcasts := broadcasts w @ [getState (state w)]\<rparr>"

definition sendWLED :: "config \<Rightarrow> jsval \<Rightarrow> wled_cb \<Rightarrow> world \<Rightarrow> world" where
  "sendWLED cfg json cb w =
     (if WLED_URL cfg = [] then w
      else w\<lparr>wled_sent := wled_sent w @ [json], wled_pending := wled_pending w @ [cb]\<rparr>)"

definition WLED_CANDLE_MULTI_FX :: int where
  "WLED_CANDLE_MULTI_FX = 102"

definition WLED_FILLED_COL :: jsval where
  "WLED_FILLED_COL = JArr [JArr [num 255, num 255, num 255]]"

definition WLED_EMPTY_COL :: jsval where
  "WLED_EMPTY_COL = JArr [JArr [num 0, num 0, num 0]]"

definition init_step1_json :: jsval where
  "init_step1_json =
     JObj [(''on'', JBool True), (''bri'', num 255),
           (''seg'', JArr [JObj [(''id'', num 0), (''start'', num 0), (''stop'', num 1),
                                 (''on'', JBool True), (''fx'', num 0), (''col'', WLED_EMPTY_COL)]])]"

definition init_step2_json :: jsval where
  "init_step2_json =
     JObj [(''seg'', JArr (map (\<lambda>n. JObj [(''id'', num (int n)), (''start'', num (int n)),
                                          (''stop'', num (int n + 1)), (''on'', JBool True),
                                          (''fx'', num 0), (''col'', WLED_EMPTY_COL)])
                             [1..<SLOT_COUNT]))]"

definition slots_json :: "bool list \<Rightarrow> jsval" where
  "slots_json sl =
     JObj [(''seg'', JArr (map (\<lambda>(filled, n).
                                 JObj [(''id'', num (int n)),
                                       (''fx'', num (if filled then WLED_CANDLE_MULTI_FX else 0)),
                                       (''col'', if filled then WLED_FILLED_COL else WLED_EMPTY_COL)])
                             (zip (take SLOT_COUNT sl) [0..<SLOT_COUNT])))]"

text \<open>The callback \<^verbatim>\<open>updateWLEDFromSlots\<close> hands to \<^verbatim>\<open>initWLEDSegments\<close>.\<close>

definition send_slots :: "config \<Rightarrow> bool list \<Rightarrow> world \<Rightarrow> world" where
  "send_slots cfg sl w = sendWLED cfg (slots_json sl) no_cb w"

definition initWLEDSegments :: "config \<Rightarrow> bool list \<Rightarrow> world \<Rightarrow> world" where
  "initWLEDSegments cfg sl w =
     (if wledSegsReady w then send_slots cfg sl w
      else sendWLED cfg init_step1_json (step1_done sl) w)"

definition updateWLEDFromSlots :: "config \<Rightarrow> bool list \<Rightarrow> world \<Rightarrow> world" where
  "updateWLEDFromSlots cfg sl w =
     (if WLED_URL cfg = [] then w else initWLEDSegments cfg sl w)"

text \<open>
  The request at position \<open>k\<close> of the pending ones completes (a response or an error:
  both run the callback, and a request is taken to complete once).
\<close>

definition wled_done :: "config \<Rightarrow> nat \<Rightarrow> world \<Rightarrow> world" where
  "wled_done cfg k w =
     (if k < length (wled_pending w) then
        (let cb = wled_pending w ! k;
             w1 = w\<lparr>wled_pending := take k (wled_pending w) @ drop (Suc k) (wled_pending w)\<rparr>
         in case cb of
              no_cb \<Rightarrow> w1
            | step1_done sl \<Rightarrow> sendWLED cfg init_step2_json (step2_done sl) w1
            | step2_done sl \<Rightarrow> send_slots cfg sl (w1\<lparr>wledSegsReady := True\<rparr>))
      else w)"

subsection \<open>POST /event\<close>

record response =
  status :: nat
  body :: jsval

definition error_json :: "string \<Rightarrow> jsval" where
  "error_json msg = JObj [(''ok'', JBool False), (''error'', JStr msg)]"

definition msg_need_type :: string where
  \<open>msg_need_type = ''Invalid event: need type "crystal"''\<close>

definition msg_need_slots :: string where
  "msg_need_slots = ''Invalid event: slots must be array of 7 booleans''"

text \<open>\<^verbatim>\<open>xs[i]\<close> used as a condition: out of range it is \<^verbatim>\<open>undefined\<close>, which is falsy.\<close>

definition slot_at :: "bool list \<Rightarrow> nat \<Rightarrow> bool" where
  "slot_at xs i = (if i < length xs then xs ! i else False)"

text \<open>
  The loop \<^verbatim>\<open>for (let i = 0; i < SLOT_COUNT; i++)\<close> of the handler, from index \<open>i\<close> on,
  on the counter \<^verbatim>\<open>inserts\<close> and the state whose log \<^verbatim>\<open>addEvent\<close> changes.
\<close>

function event_loop ::
  "config \<Rightarrow> int \<Rightarrow> bool list \<Rightarrow> bool list \<Rightarrow> nat \<Rightarrow> int \<times> game_state \<Rightarrow> int \<times> game_state" where
  "event_loop cfg ts sl prevSlots i (inserts, st) =
     (if i < SLOT_COUNT then
        (if slot_at sl i \<and> \<not> slot_at prevSlots i then
           event_loop cfg ts sl prevSlots (i + 1)
             (inserts + 1, addEvent (crystal_insert i (HP_PER_CRYSTAL cfg) ts) st)
         else if \<not> slot_at sl i \<and> slot_at prevSlots i then
           event_loop cfg ts sl prevSlots (i + 1) (inserts, addEvent (crystal_remove i ts) st)
         else event_loop cfg ts sl prevSlots (i + 1) (inserts, st))
      else (inserts, st))"
  by pat_completeness auto
termination
  by (relation "measure (\<lambda>(cfg, ts, sl, prevSlots, i, acc). SLOT_COUNT - i)") auto

definition recompute_hp :: "config \<Rightarrow> game_state \<Rightarrow> game_state" where
  "recompute_hp cfg st =
     (let hp = max 0 (maxHp st - crystalCount st * HP_PER_CRYSTAL cfg)
      in st\<lparr>bossHp := hp, gameOver := (hp \<le> 0)\<rparr>)"

definition post_event :: "config \<Rightarrow> int \<Rightarrow> jsval \<Rightarrow> world \<Rightarrow> response \<times> world" where
  "post_event cfg now req_body w =
     (let b = or_empty req_body in
      if get_prop b ''type'' \<noteq> JStr ''crystal'' then
        (\<lparr>status = 400, body = error_json msg_need_type\<rparr>, w)
      else
        (case get_prop b ''slots'' of
           JArr raw \<Rightarrow>
             if length raw \<noteq> SLOT_COUNT then
               (\<lparr>status = 400, body = error_json msg_need_slots\<rparr>, w)
             else
               (let sl = map Boolean_js (take SLOT_COUNT raw);
                    prevSlots = slots (state w);
                    (inserts, st1) = event_loop cfg now sl prevSlots 0 (0, state w);
                    st2 = st1\<lparr>slots := sl, crystalCount := int (length (filter (\<lambda>s. s) sl))\<rparr>;
                    st3 = (if hpDamageEnabled st2 then recompute_hp cfg st2 else st2);
                    st4 = st3\<lparr>totalCrystalsReceived := totalCrystalsReceived st3 + inserts\<rparr>;
                    w1 = updateWLEDFromSlots cfg (slots st4) (w\<lparr>state := st4\<rparr>);
                    w2 = broadcastState w1
                in (\<lparr>status = 200,
                     body = JObj [(''ok'', JBool True),
                                  (''bossHp'', num (bossHp st4)),
                                  (''gameOver'', JBool (gameOver st4)),
                                  (''slots'', JArr (map JBool (slots st4)))]\<rparr>, w2))
         | other \<Rightarrow>
             (\<lparr>status = 400, body = error_json msg_need_slots\<rparr>, w)))"

subsection \<open>GET /state and the admin handlers\<close>

definition get_state :: "world \<Rightarrow> response \<times> world" where
  "get_state w = (\<lparr>status = 200, body = getState (state w)\<rparr>, w)"

text \<open>
  \<^verbatim>\<open>POST /admin/hp\<close> once \<^verbatim>\<open>hp\<close> has passed the check: \<open>v\<close> is
  \<^verbatim>\<open>Math.min(state.maxHp, Math.floor(hp))\<close>.
\<close>

definition admin_hp_accept :: "int \<Rightarrow> int \<Rightarrow> world \<Rightarrow> response \<times> world" where
  "admin_hp_accept now v w =
     (let st1 = (state w)\<lparr>bossHp := v\<rparr>;
          st2 = st1\<lparr>gameOver := (bossHp st1 \<le> 0)\<rparr>;
          st3 = addEvent (admin_hp (bossHp st2) now) st2;
          w1 = broadcastState (w\<lparr>state := st3\<rparr>)
      in (\<lparr>status = 200, body = JObj [(''ok'', JBool True), (''bossHp'', num (bossHp st3))]\<rparr>, w1))"

text \<open>
  What a handler leaves: the response it sent, or the exception it threw (Express then
  answers 500 in its place), and the process state as the handler left it.
\<close>

type_synonym outcome = "js_error + response"

definition returns :: "response \<times> world \<Rightarrow> outcome \<times> world" where
  "returns p = (Inr (fst p), snd p)"

text \<open>
  \<^verbatim>\<open>Number(req.body?.hp)\<close> is the first statement: when it throws, nothing has been written
  and nothing is sent. The check is \<^verbatim>\<open>Number.isNaN(hp) || hp < 0\<close>, by cases on the number:
  \<^verbatim>\<open>NaN\<close> and \<^verbatim>\<open>-Infinity\<close> are refused, a finite number is refused when negative, and
  \<^verbatim>\<open>Math.min(maxHp, Math.floor(Infinity))\<close> is \<^verbatim>\<open>maxHp\<close>.
\<close>

definition post_admin_hp :: "(jsval \<Rightarrow> js_error + jsnum) \<Rightarrow> int \<Rightarrow> jsval \<Rightarrow> world \<Rightarrow> outcome \<times> world" where
  "post_admin_hp str2num now req_body w =
     (case Number_js str2num (opt_prop req_body ''hp'') of
        Inl e \<Rightarrow> (Inl e, w)
      | Inr NaN \<Rightarrow> (Inr \<lparr>status = 400, body = error_json ''Invalid hp''\<rparr>, w)
      | Inr NegInf \<Rightarrow> (Inr \<lparr>status = 400, body = error_json ''Invalid hp''\<rparr>, w)
      | Inr PosInf \<Rightarrow> returns (admin_hp_accept now (maxHp (state w)) w)
      | Inr (Finite q) \<Rightarrow>
          if q < 0 then (Inr \<lparr>status = 400, body = error_json ''Invalid hp''\<rparr>, w)
          else returns (admin_hp_accept now (min (maxHp (state w)) \<lfloor>q\<rfloor>) w))"

text \<open>
  \<^verbatim>\<open>Math.ceil(maxHp * 0.05)\<close>, computed exactly: for an integer \<open>maxHp\<close> below \<open>2 ^ 50\<close>
  the double product rounds to the same ceiling.
\<close>

definition five_percent :: "int \<Rightarrow> int" where
  "five_percent m = \<lceil>(of_int m :: rat) * (5 / 100)\<rceil>"

definition post_admin_hp_reduce :: "int \<Rightarrow> world \<Rightarrow> response \<times> world" where
  "post_admin_hp_reduce now w =
     (let damage = five_percent (maxHp (state w));
          st1 = (state w)\<lparr>bossHp := max 0 (bossHp (state w) - damage)\<rparr>;
          st2 = st1\<lparr>gameOver := (bossHp st1 \<le> 0)\<rparr>;
          st3 = addEvent (admin_hp_reduce damage (bossHp st2) now) st2;
          w1 = broadcastState (w\<lparr>state := st3\<rparr>)
      in (\<lparr>status = 200,
           body = JObj [(''ok'', JBool True), (''bossHp'', num (bossHp st3)), (''damage'', num damage)]\<rparr>,
          w1))"

definition post_admin_hp_damage :: "config \<Rightarrow> int \<Rightarrow> jsval \<Rightarrow> world \<Rightarrow> response \<times> world" where
  "post_admin_hp_damage cfg now req_body w =
     (case opt_prop req_body ''enabled'' of
        JBool enabled \<Rightarrow>
          (let st1 = (state w)\<lparr>hpDamageEnabled := enabled\<rparr>;
               st2 = (if enabled then recompute_hp cfg st1 else st1);
               st3 = addEvent (admin_hp_damage enabled now) st2;
               w1 = broadcastState (w\<lparr>state := st3\<rparr>)
           in (\<lparr>status = 200,
                body = JObj [(''ok'', JBool True), (''hpDamageEnabled'', JBool (hpDamageEnabled st3))]\<rparr>,
               w1))
      | other \<Rightarrow> (\<lparr>status = 400, body = error_json ''Invalid: need enabled (boolean)''\<rparr>, w))"

definition post_admin_reset :: "config \<Rightarrow> int \<Rightarrow> world \<Rightarrow> response \<times> world" where
  "post_admin_reset cfg now w =
     (let st1 = (state w)\<lparr>bossHp := maxHp (state w),
                          crystalCount := 0,
                          totalCrystalsReceived := 0,
                          slots := replicate SLOT_COUNT False,
                          gameOver := False,
                          recentEvents := []\<rparr>;
          st2 = addEvent (admin_reset now) st1;
          w1 = updateWLEDFromSlots cfg (slots st2) (w\<lparr>state := st2\<rparr>);
          w2 = broadcastState w1
      in (\<lparr>status = 200, body = JObj ((''ok'', JBool True) # getState_props (state w2))\<rparr>, w2))"

definition post_admin_wled :: "config \<Rightarrow> jsval \<Rightarrow> world \<Rightarrow> response \<times> world" where
  "post_admin_wled cfg req_body w =
     (\<lparr>status = 200, body = JObj [(''ok'', JBool True)]\<rparr>, sendWLED cfg (or_empty req_body) no_cb w)"

subsection \<open>Runs of the server\<close>

datatype request =
    POST_event jsval
  | GET_state
  | POST_admin_hp jsval
  | POST_admin_hp_reduce
  | POST_admin_hp_damage jsval
  | POST_admin_reset
  | POST_admin_wled jsval

definition handle :: "(jsval \<Rightarrow> js_error + jsnum) \<Rightarrow> config \<Rightarrow> int \<Rightarrow> request \<Rightarrow> world \<Rightarrow> outcome \<times> world" where
  "handle str2num cfg now req w =
     (case req of
        POST_event b \<Rightarrow> returns (post_event cfg now b w)
      | GET_state \<Rightarrow> returns (get_state w)
      | POST_admin_hp b \<Rightarrow> post_admin_hp str2num now b w
      | POST_admin_hp_reduce \<Rightarrow> returns (post_admin_hp_reduce now w)
      | POST_admin_hp_damage b \<Rightarrow> returns (post_admin_hp_damage cfg now b w)
      | POST_admin_reset \<Rightarrow> returns (post_admin_reset cfg now w)
      | POST_admin_wled b \<Rightarrow> returns (post_admin_wled cfg b w))"

text \<open>
  What happens to the process, one thing at a time (Node runs each handler and each
  callback to completion): an HTTP request arrives at time \<open>now\<close>, or a pending WLED
  request completes.
\<close>

datatype input = Http int request | WledDone nat

fun step :: "(jsval \<Rightarrow> js_error + jsnum) \<Rightarrow> config \<Rightarrow> world \<Rightarrow> input \<Rightarrow> world" where
  "step str2num cfg w (Http now req) = snd (handle str2num cfg now req w)"
| "step str2num cfg w (WledDone k) = wled_done cfg k w"

definition run :: "(jsval \<Rightarrow> js_error + jsnum) \<Rightarrow> config \<Rightarrow> input list \<Rightarrow> world" where
  "run str2num cfg inputs = foldl (step str2num cfg) (initial_world cfg) inputs"

text \<open>
  A slot report as the firmware posts it (\<^verbatim>\<open>sendCrystalEvent\<close>: the type, the slot
  vector and its count of occupied slots).
\<close>

definition report :: "bool list \<Rightarrow> jsval" where
  "report sl =
     JObj [(''type'', JStr ''crystal''),
           (''slots'', JArr (map JBool sl)),
           (''count'', num (int (length (filter (\<lambda>s. s) sl))))]"

text \<open>
  A stand-in for \<open>str2num\<close> in the examples below, whose requests never give \<^verbatim>\<open>hp\<close> as a
  string or an array, so that it is never called.
\<close>

definition no_strings :: "jsval \<Rightarrow> js_error + jsnum" where
  "no_strings v = Inr NaN"

subsection \<open>The handlers in closed form, and the predicates of the properties\<close>

text \<open>
  The events of one pass of the loop of \<^verbatim>\<open>POST /event\<close>: what index \<open>i\<close> appends, and what
  the indices from \<open>i\<close> on append, in the order of the loop.
\<close>

definition transition_at :: "config \<Rightarrow> int \<Rightarrow> bool list \<Rightarrow> bool list \<Rightarrow> nat \<Rightarrow> event list" where
  "transition_at cfg ts prevSlots sl i =
     (if slot_at sl i \<and> \<not> slot_at prevSlots i then [crystal_insert i (HP_PER_CRYSTAL cfg) ts]
      else if \<not> slot_at sl i \<and> slot_at prevSlots i then [crystal_remove i ts]
      else [])"

definition transitions_from :: "config \<Rightarrow> int \<Rightarrow> bool list \<Rightarrow> bool list \<Rightarrow> nat \<Rightarrow> event list" where
  "transitions_from cfg ts prevSlots sl i =
     concat (map (transition_at cfg ts prevSlots sl) [i..<SLOT_COUNT])"

fun is_insert :: "event \<Rightarrow> bool" where
  "is_insert (crystal_insert i d t) = True"
| "is_insert ev = False"

text \<open>The state an accepted report with the coerced slot vector \<open>sl\<close> leaves.\<close>

definition reconciled :: "config \<Rightarrow> int \<Rightarrow> bool list \<Rightarrow> game_state \<Rightarrow> game_state" where
  "reconciled cfg now sl st =
     (let evs = transitions_from cfg now (slots st) sl 0;
          n = int (length (filter (\<lambda>s. s) sl));
          hp = max 0 (maxHp st - n * HP_PER_CRYSTAL cfg);
          st2 = (fold addEvent evs st)\<lparr>slots := sl, crystalCount := n\<rparr>;
          st3 = (if hpDamageEnabled st then st2\<lparr>bossHp := hp, gameOver := (hp \<le> 0)\<rparr> else st2)
      in st3\<lparr>totalCrystalsReceived :=
               totalCrystalsReceived st + int (length (filter is_insert evs))\<rparr>)"

definition event_ok_json :: "game_state \<Rightarrow> jsval" where
  "event_ok_json st =
     JObj [(''ok'', JBool True), (''bossHp'', num (bossHp st)),
           (''gameOver'', JBool (gameOver st)), (''slots'', JArr (map JBool (slots st)))]"

text \<open>
  The events the specification expects between two reports \<open>S1\<close> and \<open>S2\<close> of seven
  slots: by increasing index, an insert where the slot was empty and is occupied, a remove
  where it was occupied and is empty.
\<close>

definition slot_events :: "config \<Rightarrow> int \<Rightarrow> bool list \<Rightarrow> bool list \<Rightarrow> event list" where
  "slot_events cfg ts S1 S2 =
     concat (map (\<lambda>i. if \<not> S1 ! i \<and> S2 ! i then [crystal_insert i (HP_PER_CRYSTAL cfg) ts]
                      else if S1 ! i \<and> \<not> S2 ! i then [crystal_remove i ts]
                      else [])
                 [0..<7])"

text \<open>What every reachable state satisfies, whatever the configuration.\<close>

definition basic_inv :: "config \<Rightarrow> game_state \<Rightarrow> bool" where
  "basic_inv cfg st =
     (maxHp st = BOSS_MAX_HP cfg \<and> length (slots st) = SLOT_COUNT
      \<and> length (recentEvents st) \<le> MAX_RECENT_EVENTS
      \<and> crystalCount st = int (length (filter (\<lambda>s. s) (slots st))))"

text \<open>The invariant of the boss HP and of the game-over flag.\<close>

definition hp_inv :: "game_state \<Rightarrow> bool" where
  "hp_inv st = (0 \<le> bossHp st \<and> bossHp st \<le> maxHp st \<and> (gameOver st \<longleftrightarrow> bossHp st = 0))"

text \<open>
  The HP derivation: while damage is enabled, the boss HP is what the occupied slots
  leave of \<open>maxHp\<close>, floored at \<open>0\<close>.
\<close>

definition hp_derived :: "config \<Rightarrow> game_state \<Rightarrow> bool" where
  "hp_derived cfg st =
     (hpDamageEnabled st \<longrightarrow>
        bossHp st = max 0 (maxHp st - crystalCount st * HP_PER_CRYSTAL cfg))"

text \<open>The inputs that write the boss HP directly, and the reset.\<close>

fun sets_hp :: "input \<Rightarrow> bool" where
  "sets_hp (Http now (POST_admin_hp b)) = True"
| "sets_hp (Http now POST_admin_hp_reduce) = True"
| "sets_hp inp = False"

fun is_reset :: "input \<Rightarrow> bool" where
  "is_reset (Http now POST_admin_reset) = True"
| "is_reset inp = False"

text \<open>
  \<^verbatim>\<open>POST /event\<close> refuses a body unless its \<^verbatim>\<open>slots\<close> is an array of seven entries.
\<close>

definition seven_entries :: "jsval \<Rightarrow> bool" where
  "seven_entries v = (case v of JArr raw \<Rightarrow> length raw = 7 | other \<Rightarrow> False)"

text \<open>
  \<^verbatim>\<open>POST /admin/hp\<close> refuses a number that is \<^verbatim>\<open>NaN\<close> or negative; an accepted one is
  floored and clamped into \<open>[0, m]\<close> (\<^verbatim>\<open>Infinity\<close> clamps to \<open>m\<close>; the two refused cases
  are given \<open>0\<close> and never used).
\<close>

definition hp_refused :: "jsnum \<Rightarrow> bool" where
  "hp_refused n = (case n of NaN \<Rightarrow> True | NegInf \<Rightarrow> True | PosInf \<Rightarrow> False | Finite q \<Rightarrow> q < 0)"

definition floor_clamp :: "int \<Rightarrow> jsnum \<Rightarrow> int" where
  "floor_clamp m n =
     (case n of Finite q \<Rightarrow> max 0 (min m \<lfloor>q\<rfloor>) | PosInf \<Rightarrow> max 0 m | NegInf \<Rightarrow> 0 | NaN \<Rightarrow> 0)"

text \<open>What the lighting adapter holds: the ready latch, the requests sent, the callbacks pending.\<close>

definition lighting :: "world \<Rightarrow> bool \<times> jsval list \<times> wled_cb list" where
  "lighting w = (wledSegsReady w, wled_sent w, wled_pending w)"

subsection \<open>Example inputs\<close>

definition slots_0_2 :: "bool list" where
  "slots_0_2 = [True, False, True, False, False, False, False]"

definition slots_2_6 :: "bool list" where
  "slots_2_6 = [False, False, True, False, False, False, True]"

definition wled_config :: config where
  "wled_config = \<lparr>BOSS_MAX_HP = 100, HP_PER_CRYSTAL = 10, WLED_URL = ''http://192.168.1.51''\<rparr>"

definition hp_50 :: jsval where
  "hp_50 = JObj [(''hp'', JNum (Finite 50))]"

definition hp_zero :: jsval where
  "hp_zero = JObj [(''hp'', JNum (Finite 0))]"

definition hp_null :: jsval where
  "hp_null = JObj [(''hp'', JNull)]"

definition hp_no_toString :: jsval where
  "hp_no_toString = JObj [(''hp'', JObj [(''toString'', JNull)])]"

definition damage_off :: jsval where
  "damage_off = JObj [(''enabled'', JBool False)]"

definition five_slots :: jsval where
  "five_slots = JObj [(''type'', JStr ''crystal''),
                      (''slots'', JArr [JBool True, JBool False, JBool True, JBool False, JBool False])]"

definition example_run :: "input list" where
  "example_run =
     [Http 1 (POST_event (report slots_0_2)),
      Http 2 (POST_admin_hp (JObj [(''hp'', JNum (Finite (7 / 2)))])),
      Http 3 POST_admin_hp_reduce,
      Http 4 (POST_admin_hp_damage (JObj [(''enabled'', JBool False)])),
      Http 5 (POST_event (report slots_2_6)),
      Http 6 POST_admin_reset]"

definition slot_run :: "input list" where
  "slot_run =
     [Http 1 (POST_event (report slots_0_2)),
      Http 2 (POST_admin_hp_damage damage_off),
      Http 3 (POST_event (report slots_2_6)),
      Http 4 (POST_admin_hp_damage (JObj [(''enabled'', JBool True)])),
      WledDone 0]"

definition full_log :: game_state where
  "full_log = (initial_state default_config)\<lparr>recentEvents := map admin_reset [1..20]\<rparr>"

section \<open>Properties\<close>

subsection \<open>The event log and the loop of POST /event\<close>

lemma addEvent_other [simp]:
  "bossHp (addEvent ev st) = bossHp st"
  "maxHp (addEvent ev st) = maxHp st"
  "crystalCount (addEvent ev st) = crystalCount st"
  "totalCrystalsReceived (addEvent ev st) = totalCrystalsReceived st"
  "slots (addEvent ev st) = slots st"
  "gameOver (addEvent ev st) = gameOver st"
  "hpDamageEnabled (addEvent ev st) = hpDamageEnabled st"
  by (simp_all add: addEvent_def Let_def)

lemma recentEvents_addEvent:
  "recentEvents (addEvent ev st) =
     (if length (recentEvents st) < MAX_RECENT_EVENTS then ev # recentEvents st
      else ev # butlast (recentEvents st))"
  by (cases "recentEvents st") (auto simp: addEvent_def Let_def MAX_RECENT_EVENTS_def)

lemma take_cap_addEvent:
  "length (recentEvents st) \<le> MAX_RECENT_EVENTS \<Longrightarrow>
   recentEvents (addEvent ev st) = take MAX_RECENT_EVENTS (ev # recentEvents st)"
  by (auto simp: recentEvents_addEvent MAX_RECENT_EVENTS_def butlast_conv_take)

lemma length_addEvent:
  "length (recentEvents st) \<le> MAX_RECENT_EVENTS \<Longrightarrow>
   length (recentEvents (addEvent ev st)) \<le> MAX_RECENT_EVENTS"
  by (simp add: take_cap_addEvent)

lemma transitions_from_step:
  "i < SLOT_COUNT \<Longrightarrow>
   transitions_from cfg ts prevSlots sl i =
     transition_at cfg ts prevSlots sl i @ transitions_from cfg ts prevSlots sl (Suc i)"
  by (simp add: transitions_from_def upt_conv_Cons)

lemma transitions_from_end:
  "\<not> i < SLOT_COUNT \<Longrightarrow> transitions_from cfg ts prevSlots sl i = []"
  by (simp add: transitions_from_def)

lemma event_loop_acc:
  "event_loop cfg ts sl prevSlots i acc =
     (fst acc + int (length (filter is_insert (transitions_from cfg ts prevSlots sl i))),
      fold addEvent (transitions_from cfg ts prevSlots sl i) (snd acc))"
proof (induction cfg ts sl prevSlots i acc rule: event_loop.induct)
  case (1 cfg ts sl prevSlots i inserts st)
  show ?case
  proof (cases "i < SLOT_COUNT")
    case False
    then show ?thesis by (simp add: transitions_from_end)
  next
    case True
    then show ?thesis
      using 1
      by (subst event_loop.simps) (simp add: transitions_from_step transition_at_def del: event_loop.simps)
  qed
qed

lemma fold_addEvent_other [simp]:
  "bossHp (fold addEvent evs st) = bossHp st"
  "maxHp (fold addEvent evs st) = maxHp st"
  "crystalCount (fold addEvent evs st) = crystalCount st"
  "totalCrystalsReceived (fold addEvent evs st) = totalCrystalsReceived st"
  "slots (fold addEvent evs st) = slots st"
  "gameOver (fold addEvent evs st) = gameOver st"
  "hpDamageEnabled (fold addEvent evs st) = hpDamageEnabled st"
  by (induction evs arbitrary: st; simp)+

lemma fold_addEvent_log:
  "length (recentEvents st) \<le> MAX_RECENT_EVENTS \<Longrightarrow>
   recentEvents (fold addEvent evs st) = take MAX_RECENT_EVENTS (rev evs @ recentEvents st)"
proof (induction evs arbitrary: st)
  case Nil
  then show ?case by simp
next
  case (Cons ev evs)
  have "recentEvents (fold addEvent evs (addEvent ev st)) =
        take MAX_RECENT_EVENTS (rev evs @ recentEvents (addEvent ev st))"
    using Cons.prems by (intro Cons.IH length_addEvent)
  also have "\<dots> = take MAX_RECENT_EVENTS (rev evs @ take MAX_RECENT_EVENTS (ev # recentEvents st))"
    using Cons.prems by (simp add: take_cap_addEvent)
  also have "\<dots> = take MAX_RECENT_EVENTS (rev evs @ ev # recentEvents st)"
    by (simp add: min_def)
  finally show ?case by simp
qed



subsection \<open>POST /event in closed form\<close>

lemma post_event_reject_type:
  "get_prop (or_empty b) ''type'' \<noteq> JStr ''crystal'' \<Longrightarrow>
   post_event cfg now b w = (\<lparr>status = 400, body = error_json msg_need_type\<rparr>, w)"
  by (simp add: post_event_def Let_def)

lemma post_event_reject_slots:
  "get_prop (or_empty b) ''type'' = JStr ''crystal'' \<Longrightarrow>
   \<forall>raw. get_prop (or_empty b) ''slots'' = JArr raw \<longrightarrow> length raw \<noteq> SLOT_COUNT \<Longrightarrow>
   post_event cfg now b w = (\<lparr>status = 400, body = error_json msg_need_slots\<rparr>, w)"
  by (simp add: post_event_def Let_def split: jsval.splits)

lemma post_event_accept:
  assumes "get_prop (or_empty b) ''type'' = JStr ''crystal''"
    and "get_prop (or_empty b) ''slots'' = JArr raw"
    and "length raw = SLOT_COUNT"
  shows "post_event cfg now b w =
           (\<lparr>status = 200, body = event_ok_json (reconciled cfg now (map Boolean_js raw) (state w))\<rparr>,
            broadcastState (updateWLEDFromSlots cfg (map Boolean_js raw)
              (w\<lparr>state := reconciled cfg now (map Boolean_js raw) (state w)\<rparr>)))"
  using assms
  by (simp add: post_event_def Let_def event_loop_acc recompute_hp_def reconciled_def event_ok_json_def)


lemma reconciled_fields:
  "slots (reconciled cfg now sl st) = sl"
  "crystalCount (reconciled cfg now sl st) = int (length (filter (\<lambda>s. s) sl))"
  "maxHp (reconciled cfg now sl st) = maxHp st"
  "hpDamageEnabled (reconciled cfg now sl st) = hpDamageEnabled st"
  "bossHp (reconciled cfg now sl st) =
     (if hpDamageEnabled st
      then max 0 (maxHp st - int (length (filter (\<lambda>s. s) sl)) * HP_PER_CRYSTAL cfg)
      else bossHp st)"
  "gameOver (reconciled cfg now sl st) =
     (if hpDamageEnabled st
      then max 0 (maxHp st - int (length (filter (\<lambda>s. s) sl)) * HP_PER_CRYSTAL cfg) \<le> 0
      else gameOver st)"
  "totalCrystalsReceived (reconciled cfg now sl st) =
     totalCrystalsReceived st
       + int (length (filter is_insert (transitions_from cfg now (slots st) sl 0)))"
  "recentEvents (reconciled cfg now sl st) =
     recentEvents (fold addEvent (transitions_from cfg now (slots st) sl 0) st)"
  by (simp_all add: reconciled_def Let_def)


lemma state_broadcastState [simp]: "state (broadcastState w) = state w"
  by (simp add: broadcastState_def)

lemma state_sendWLED [simp]: "state (sendWLED cfg j cb w) = state w"
  by (simp add: sendWLED_def)

lemma state_updateWLEDFromSlots [simp]: "state (updateWLEDFromSlots cfg sl w) = state w"
  by (simp add: updateWLEDFromSlots_def initWLEDSegments_def send_slots_def)

lemma report_props [simp]:
  "get_prop (or_empty (report sl)) ''type'' = JStr ''crystal''"
  "get_prop (or_empty (report sl)) ''slots'' = JArr (map JBool sl)"
  by (simp_all add: report_def or_empty_def)

lemma Boolean_js_JBool [simp]: "Boolean_js \<circ> JBool = (\<lambda>s. s)"
  by (rule ext) simp

lemma post_event_report:
  "length sl = SLOT_COUNT \<Longrightarrow>
   post_event cfg now (report sl) w =
     (\<lparr>status = 200, body = event_ok_json (reconciled cfg now sl (state w))\<rparr>,
      broadcastState (updateWLEDFromSlots cfg sl (w\<lparr>state := reconciled cfg now sl (state w)\<rparr>)))"
  using post_event_accept [of "report sl" "map JBool sl" cfg now w] by simp

lemma length_transition_at: "length (transition_at cfg ts prevSlots sl i) \<le> 1"
  by (simp add: transition_at_def)

lemma length_transitions_from:
  "length (transitions_from cfg ts prevSlots sl i) \<le> SLOT_COUNT - i"
proof (induction "SLOT_COUNT - i" arbitrary: i)
  case 0
  then show ?case by (simp add: transitions_from_end)
next
  case (Suc n)
  then have lt: "i < SLOT_COUNT" and n: "n = SLOT_COUNT - Suc i" by simp_all
  from Suc.hyps(1) [OF n] length_transition_at [of cfg ts prevSlots sl i]
  show ?case using lt by (simp add: transitions_from_step)
qed

lemma transitions_from_slot_events:
  "length S1 = 7 \<Longrightarrow> length S2 = 7 \<Longrightarrow>
   transitions_from cfg ts S1 S2 0 = slot_events cfg ts S1 S2"
  unfolding transitions_from_def slot_events_def SLOT_COUNT_def
  by (intro arg_cong [where f = concat] map_cong refl) (auto simp: transition_at_def slot_at_def)

lemma slot_events_same: "slot_events cfg ts S S = []"
  by (simp add: slot_events_def)

lemma count_list_True: "count_list xs True = length (filter (\<lambda>s. s) xs)"
  by (induction xs) simp_all

lemma get_prop_or_empty [simp]: "get_prop (or_empty b) k = get_prop b k"
  by (cases b) (simp_all add: or_empty_def)

lemma post_event_cases:
  "snd (post_event cfg now b w) = w \<or>
   (\<exists>raw. length raw = SLOT_COUNT \<and>
      snd (post_event cfg now b w) =
        broadcastState (updateWLEDFromSlots cfg (map Boolean_js raw)
          (w\<lparr>state := reconciled cfg now (map Boolean_js raw) (state w)\<rparr>)))"
proof (cases "get_prop (or_empty b) ''type'' = JStr ''crystal''")
  case False
  then show ?thesis by (simp add: post_event_reject_type)
next
  case ty: True
  show ?thesis
  proof (cases "\<exists>raw. get_prop (or_empty b) ''slots'' = JArr raw \<and> length raw = SLOT_COUNT")
    case True
    then obtain raw where "get_prop (or_empty b) ''slots'' = JArr raw" "length raw = SLOT_COUNT"
      by blast
    with ty show ?thesis by (auto simp: post_event_accept)
  next
    case False
    with ty show ?thesis by (simp add: post_event_reject_slots)
  qed
qed

lemma post_event_state_cases:
  "state (snd (post_event cfg now b w)) = state w \<or>
   (\<exists>sl. length sl = SLOT_COUNT \<and>
      state (snd (post_event cfg now b w)) = reconciled cfg now sl (state w))"
proof -
  consider "snd (post_event cfg now b w) = w"
    | raw where "length raw = SLOT_COUNT"
        "snd (post_event cfg now b w) =
           broadcastState (updateWLEDFromSlots cfg (map Boolean_js raw)
             (w\<lparr>state := reconciled cfg now (map Boolean_js raw) (state w)\<rparr>))"
    using post_event_cases [of cfg now b w] by blast
  then show ?thesis
  proof cases
    case 1
    then show ?thesis by simp
  next
    case 2
    then have "length (map Boolean_js raw) = SLOT_COUNT \<and>
        state (snd (post_event cfg now b w)) = reconciled cfg now (map Boolean_js raw) (state w)"
      by simp
    then show ?thesis by blast
  qed
qed

subsection \<open>The admin handlers in closed form\<close>

lemma state_admin_hp_accept:
  "state (snd (admin_hp_accept now v w)) =
     addEvent (admin_hp v now) ((state w)\<lparr>bossHp := v, gameOver := (v \<le> 0)\<rparr>)"
  by (simp add: admin_hp_accept_def Let_def)

lemma status_admin_hp_accept: "status (fst (admin_hp_accept now v w)) = 200"
  by (simp add: admin_hp_accept_def Let_def)

lemma snd_returns [simp]: "snd (returns p) = snd p"
  by (simp add: returns_def)

lemma fst_returns [simp]: "fst (returns p) = Inr (fst p)"
  by (simp add: returns_def)

lemma post_admin_hp_throws:
  "Number_js s (opt_prop b ''hp'') = Inl e \<Longrightarrow> post_admin_hp s now b w = (Inl e, w)"
  by (simp add: post_admin_hp_def)

lemma post_admin_hp_refused:
  "Number_js s (opt_prop b ''hp'') = Inr n \<Longrightarrow> hp_refused n \<Longrightarrow>
   post_admin_hp s now b w = (Inr \<lparr>status = 400, body = error_json ''Invalid hp''\<rparr>, w)"
  by (simp add: post_admin_hp_def hp_refused_def split: jsnum.splits)

lemma post_admin_hp_accepted:
  "Number_js s (opt_prop b ''hp'') = Inr n \<Longrightarrow> \<not> hp_refused n \<Longrightarrow> 0 \<le> maxHp (state w) \<Longrightarrow>
   post_admin_hp s now b w = returns (admin_hp_accept now (floor_clamp (maxHp (state w)) n) w)"
  by (simp add: post_admin_hp_def hp_refused_def floor_clamp_def split: jsnum.splits)

lemma post_admin_hp_cases:
  "snd (post_admin_hp s now b w) = w \<or>
   (\<exists>v. (0 \<le> maxHp (state w) \<longrightarrow> 0 \<le> v) \<and> v \<le> maxHp (state w) \<and>
      snd (post_admin_hp s now b w) = snd (admin_hp_accept now v w))"
proof (cases "Number_js s (opt_prop b ''hp'')")
  case (Inl e)
  then show ?thesis by (simp add: post_admin_hp_throws)
next
  case (Inr n)
  show ?thesis
  proof (cases n)
    case (Finite q)
    show ?thesis
    proof (cases "q < 0")
      case True
      with Inr Finite show ?thesis by (simp add: post_admin_hp_def)
    next
      case False
      then have "0 \<le> \<lfloor>q\<rfloor>" by simp
      then have "(0 \<le> maxHp (state w) \<longrightarrow> 0 \<le> min (maxHp (state w)) \<lfloor>q\<rfloor>)
          \<and> min (maxHp (state w)) \<lfloor>q\<rfloor> \<le> maxHp (state w)"
        by simp
      moreover have "snd (post_admin_hp s now b w)
          = snd (admin_hp_accept now (min (maxHp (state w)) \<lfloor>q\<rfloor>) w)"
        using Inr Finite False by (simp add: post_admin_hp_def)
      ultimately show ?thesis by blast
    qed
  next
    case PosInf
    with Inr have "snd (post_admin_hp s now b w) = snd (admin_hp_accept now (maxHp (state w)) w)"
      by (simp add: post_admin_hp_def)
    then show ?thesis by blast
  qed (use Inr in \<open>simp_all add: post_admin_hp_def\<close>)
qed

lemma five_percent_nonneg: "0 \<le> m \<Longrightarrow> 0 \<le> five_percent m"
  by (simp add: five_percent_def)

lemma state_post_admin_hp_reduce:
  "state (snd (post_admin_hp_reduce now w)) =
     addEvent (admin_hp_reduce (five_percent (maxHp (state w)))
                 (max 0 (bossHp (state w) - five_percent (maxHp (state w)))) now)
       ((state w)\<lparr>bossHp := max 0 (bossHp (state w) - five_percent (maxHp (state w))),
                  gameOver := (max 0 (bossHp (state w) - five_percent (maxHp (state w))) \<le> 0)\<rparr>)"
  by (simp add: post_admin_hp_reduce_def Let_def)

lemma state_wled_done [simp]: "state (wled_done cfg k w) = state w"
  by (simp add: wled_done_def Let_def send_slots_def split: wled_cb.splits)

subsection \<open>Induction over runs, and what every reachable state satisfies\<close>

lemma run_induct:
  assumes "P (initial_world cfg)"
    and "\<And>w inp. P w \<Longrightarrow> P (step s cfg w inp)"
  shows "P (run s cfg inputs)"
  unfolding run_def
  by (induction inputs rule: rev_induct) (simp_all add: assms)

lemma run_induct_on:
  assumes "P (initial_world cfg)"
    and "\<And>w inp. Q inp \<Longrightarrow> P w \<Longrightarrow> P (step s cfg w inp)"
    and "\<forall>inp \<in> set inputs. Q inp"
  shows "P (run s cfg inputs)"
  using assms(3) unfolding run_def
  by (induction inputs rule: rev_induct) (simp_all add: assms(1,2))

lemma basic_inv_addEvent: "basic_inv cfg st \<Longrightarrow> basic_inv cfg (addEvent ev st)"
  by (simp add: basic_inv_def length_addEvent)

lemma basic_inv_reconciled:
  "basic_inv cfg st \<Longrightarrow> length sl = SLOT_COUNT \<Longrightarrow> basic_inv cfg (reconciled cfg now sl st)"
  by (simp add: basic_inv_def reconciled_fields fold_addEvent_log)

lemma basic_inv_post_event:
  "basic_inv cfg (state w) \<Longrightarrow> basic_inv cfg (state (snd (post_event cfg now b w)))"
  using post_event_state_cases [of cfg now b w] by (auto simp: basic_inv_reconciled)

lemma basic_inv_post_admin_hp:
  "basic_inv cfg (state w) \<Longrightarrow> basic_inv cfg (state (snd (post_admin_hp s now b w)))"
  using post_admin_hp_cases [of s now b w]
  by (auto simp: state_admin_hp_accept basic_inv_def length_addEvent)

lemma basic_inv_post_admin_hp_reduce:
  "basic_inv cfg (state w) \<Longrightarrow> basic_inv cfg (state (snd (post_admin_hp_reduce now w)))"
  by (simp add: post_admin_hp_reduce_def Let_def basic_inv_def length_addEvent)

lemma basic_inv_post_admin_hp_damage:
  "basic_inv cfg (state w) \<Longrightarrow> basic_inv cfg (state (snd (post_admin_hp_damage cfg now b w)))"
  by (auto simp: post_admin_hp_damage_def Let_def basic_inv_def length_addEvent recompute_hp_def
      split: jsval.splits)

lemma basic_inv_post_admin_reset:
  "basic_inv cfg (state w) \<Longrightarrow> basic_inv cfg (state (snd (post_admin_reset cfg now w)))"
  by (simp add: post_admin_reset_def Let_def basic_inv_def recentEvents_addEvent
      MAX_RECENT_EVENTS_def)

lemma basic_inv_step:
  "basic_inv cfg (state w) \<Longrightarrow> basic_inv cfg (state (step s cfg w inp))"
proof (cases inp)
  case (Http now req)
  assume "basic_inv cfg (state w)"
  then show ?thesis
    unfolding Http
    by (cases req)
      (simp_all add: handle_def basic_inv_post_event basic_inv_post_admin_hp
        basic_inv_post_admin_hp_reduce basic_inv_post_admin_hp_damage basic_inv_post_admin_reset
        get_state_def post_admin_wled_def)
next
  case (WledDone k)
  assume "basic_inv cfg (state w)"
  then show ?thesis unfolding WledDone by simp
qed

lemma basic_inv_run: "basic_inv cfg (state (run s cfg inputs))"
proof (rule run_induct)
  show "basic_inv cfg (state (initial_world cfg))"
    by (simp add: basic_inv_def initial_world_def initial_state_def MAX_RECENT_EVENTS_def)
qed (rule basic_inv_step)

text \<open>The definitions a concrete run unfolds to.\<close>

lemmas handler_defs =
  run_def handle_def returns_def post_event_def get_state_def post_admin_hp_def
  admin_hp_accept_def
  post_admin_hp_reduce_def post_admin_hp_damage_def post_admin_reset_def post_admin_wled_def
  addEvent_def broadcastState_def updateWLEDFromSlots_def initWLEDSegments_def send_slots_def
  sendWLED_def wled_done_def recompute_hp_def initial_world_def initial_state_def
  default_config_def report_def or_empty_def slot_at_def five_percent_def
  SLOT_COUNT_def MAX_RECENT_EVENTS_def Let_def

subsection \<open>Reconciliation of two reports\<close>

text \<open>
  C1. From the initial state, after two reports \<open>S1\<close> and \<open>S2\<close> of seven booleans each, the
  second is answered with status 200, the stored slots are \<open>S2\<close>, \<open>crystalCount\<close> is the
  number of true entries of \<open>S2\<close>, and the second report has put on the log exactly the
  events of \<open>slot_events\<close> one after the other (the log is most-recent-first, so they stand
  reversed in front of what the log held); a second report equal to the first leaves the
  log as it was.
\<close>

theorem reconcile_two_reports:
  assumes "length S1 = 7" and "length S2 = 7"
  shows "let w1 = snd (post_event cfg t1 (report S1) (initial_world cfg));
             r2 = fst (post_event cfg t2 (report S2) w1);
             w2 = snd (post_event cfg t2 (report S2) w1)
         in status r2 = 200
          \<and> slots (state w2) = S2
          \<and> crystalCount (state w2) = int (count_list S2 True)
          \<and> recentEvents (state w2) = rev (slot_events cfg t2 S1 S2) @ recentEvents (state w1)
          \<and> (S1 = S2 \<longrightarrow> recentEvents (state w2) = recentEvents (state w1))"
proof -
  define w1 where "w1 = snd (post_event cfg t1 (report S1) (initial_world cfg))"
  define w2 where "w2 = snd (post_event cfg t2 (report S2) w1)"
  have s1: "state w1 = reconciled cfg t1 S1 (initial_state cfg)"
    using assms(1) by (simp add: w1_def post_event_report SLOT_COUNT_def initial_world_def)
  have s2: "state w2 = reconciled cfg t2 S2 (state w1)"
    using assms(2) by (simp add: w2_def post_event_report SLOT_COUNT_def)
  have r2: "status (fst (post_event cfg t2 (report S2) w1)) = 200"
    using assms(2) by (simp add: post_event_report SLOT_COUNT_def)
  have prev: "slots (state w1) = S1"
    by (simp add: s1 reconciled_fields)
  have len1: "length (recentEvents (state w1)) \<le> 7"
    using length_transitions_from [of cfg t1 "slots (initial_state cfg)" S1 0]
    by (simp add: s1 reconciled_fields fold_addEvent_log initial_state_def SLOT_COUNT_def)
  have len2: "length (slot_events cfg t2 S1 S2) \<le> 7"
    using length_transitions_from [of cfg t2 S1 S2 0] assms
    by (simp add: transitions_from_slot_events SLOT_COUNT_def)
  have log: "recentEvents (state w2) = rev (slot_events cfg t2 S1 S2) @ recentEvents (state w1)"
    using len1 len2 assms
    by (simp add: s2 reconciled_fields prev fold_addEvent_log transitions_from_slot_events
        MAX_RECENT_EVENTS_def)
  have cnt: "crystalCount (state w2) = int (count_list S2 True)"
    by (simp add: s2 reconciled_fields count_list_True)
  have "slots (state w2) = S2"
    by (simp add: s2 reconciled_fields)
  with r2 log cnt show ?thesis
    unfolding Let_def w1_def [symmetric] w2_def [symmetric]
    by (auto simp: slot_events_same)
qed

theorem reconcile_two_reports_witness:
  "length slots_0_2 = 7 \<and> length slots_2_6 = 7
   \<and> slots (state (snd (post_event default_config 2 (report slots_2_6)
        (snd (post_event default_config 1 (report slots_0_2) (initial_world default_config))))))
       = slots_2_6
   \<and> crystalCount (state (snd (post_event default_config 2 (report slots_2_6)
        (snd (post_event default_config 1 (report slots_0_2) (initial_world default_config))))))
       = 2
   \<and> recentEvents (state (snd (post_event default_config 2 (report slots_2_6)
        (snd (post_event default_config 1 (report slots_0_2) (initial_world default_config))))))
       = [crystal_insert 6 10 2, crystal_remove 0 2]
         @ recentEvents (state (snd (post_event default_config 1 (report slots_0_2)
             (initial_world default_config))))"
proof -
  have l1: "length slots_0_2 = 7" and l2: "length slots_2_6 = 7"
    by (simp_all add: slots_0_2_def slots_2_6_def)
  have ev: "slot_events default_config 2 slots_0_2 slots_2_6
              = [crystal_remove 0 2, crystal_insert 6 10 2]"
    by (simp add: slot_events_def slots_0_2_def slots_2_6_def default_config_def upt_rec)
  have cnt: "count_list slots_2_6 True = 2"
    by (simp add: slots_2_6_def)
  show ?thesis
    using reconcile_two_reports [OF l1 l2, of default_config 1 2] l1 l2
    by (simp add: Let_def ev cnt)
qed

subsection \<open>The invariant of the boss HP\<close>

lemma hp_inv_addEvent [simp]: "hp_inv (addEvent ev st) = hp_inv st"
  by (simp add: hp_inv_def)

lemma hp_inv_reconciled:
  "0 \<le> maxHp st \<Longrightarrow> 0 \<le> HP_PER_CRYSTAL cfg \<Longrightarrow> hp_inv st \<Longrightarrow> hp_inv (reconciled cfg now sl st)"
  by (auto simp: hp_inv_def reconciled_fields)

lemma hp_inv_post_event:
  "0 \<le> maxHp (state w) \<Longrightarrow> 0 \<le> HP_PER_CRYSTAL cfg \<Longrightarrow> hp_inv (state w) \<Longrightarrow>
   hp_inv (state (snd (post_event cfg now b w)))"
  using post_event_state_cases [of cfg now b w] by (auto simp: hp_inv_reconciled)

lemma hp_inv_set:
  "0 \<le> v \<Longrightarrow> v \<le> maxHp st \<Longrightarrow> hp_inv (st\<lparr>bossHp := v, gameOver := (v \<le> 0)\<rparr>)"
  by (auto simp: hp_inv_def)

lemma hp_inv_post_admin_hp:
  assumes "0 \<le> maxHp (state w)" and "hp_inv (state w)"
  shows "hp_inv (state (snd (post_admin_hp s now b w)))"
  using post_admin_hp_cases [of s now b w] assms
  by (auto simp: state_admin_hp_accept hp_inv_def)

lemma hp_inv_post_admin_hp_reduce:
  assumes "0 \<le> maxHp (state w)" and "hp_inv (state w)"
  shows "hp_inv (state (snd (post_admin_hp_reduce now w)))"
proof -
  have "0 \<le> five_percent (maxHp (state w))"
    using assms(1) by (rule five_percent_nonneg)
  moreover have "bossHp (state w) \<le> maxHp (state w)"
    using assms(2) by (simp add: hp_inv_def)
  ultimately have "max 0 (bossHp (state w) - five_percent (maxHp (state w))) \<le> maxHp (state w)"
    using assms(1) by simp
  then show ?thesis
    by (simp only: state_post_admin_hp_reduce hp_inv_addEvent) (rule hp_inv_set, simp_all)
qed

lemma hp_inv_post_admin_hp_damage:
  "0 \<le> maxHp (state w) \<Longrightarrow> 0 \<le> HP_PER_CRYSTAL cfg \<Longrightarrow> 0 \<le> crystalCount (state w) \<Longrightarrow>
   hp_inv (state w) \<Longrightarrow> hp_inv (state (snd (post_admin_hp_damage cfg now b w)))"
  by (auto simp: post_admin_hp_damage_def Let_def hp_inv_def recompute_hp_def split: jsval.splits)

lemma hp_inv_post_admin_reset:
  "0 < maxHp (state w) \<Longrightarrow> hp_inv (state (snd (post_admin_reset cfg now w)))"
  by (simp add: post_admin_reset_def Let_def hp_inv_def)

lemma hp_inv_step:
  assumes "config_ok cfg" and "basic_inv cfg (state w)" and "hp_inv (state w)"
  shows "hp_inv (state (step s cfg w inp))"
proof -
  from assms(1,2) have pos: "0 < maxHp (state w)" and hpc: "0 \<le> HP_PER_CRYSTAL cfg"
    and cnt: "0 \<le> crystalCount (state w)"
    by (simp_all add: config_ok_def basic_inv_def)
  show ?thesis
  proof (cases inp)
    case (Http now req)
    show ?thesis
      unfolding Http using pos hpc cnt assms(3)
      by (cases req)
        (simp_all add: handle_def hp_inv_post_event hp_inv_post_admin_hp
          hp_inv_post_admin_hp_reduce hp_inv_post_admin_hp_damage hp_inv_post_admin_reset
          get_state_def post_admin_wled_def)
  next
    case (WledDone k)
    then show ?thesis using assms(3) by simp
  qed
qed

lemma hp_inv_run:
  assumes "config_ok cfg"
  shows "hp_inv (state (run s cfg inputs))"
proof -
  have "basic_inv cfg (state (run s cfg inputs)) \<and> hp_inv (state (run s cfg inputs))"
  proof (rule run_induct)
    show "basic_inv cfg (state (initial_world cfg)) \<and> hp_inv (state (initial_world cfg))"
      using assms
      by (simp add: basic_inv_def hp_inv_def initial_world_def initial_state_def
          MAX_RECENT_EVENTS_def config_ok_def)
  next
    fix w :: world and inp
    assume "basic_inv cfg (state w) \<and> hp_inv (state w)"
    then show "basic_inv cfg (state (step s cfg w inp)) \<and> hp_inv (state (step s cfg w inp))"
      using assms by (simp add: basic_inv_step hp_inv_step)
  qed
  then show ?thesis ..
qed

text \<open>
  C2. In every state the server reaches from its initial state, by any sequence of slot
  reports, admin requests (set HP, reduce HP, toggle damage, reset, accepted or refused)
  and lighting completions, \<open>0 \<le> bossHp \<le> maxHp\<close> and \<open>gameOver\<close> holds exactly when
  \<open>bossHp = 0\<close>. The configuration is one of positive integers (\<open>config_ok\<close>).
\<close>

theorem state_invariant:
  assumes "config_ok cfg"
  shows "0 \<le> bossHp (state (run s cfg inputs))
       \<and> bossHp (state (run s cfg inputs)) \<le> maxHp (state (run s cfg inputs))
       \<and> (gameOver (state (run s cfg inputs)) \<longleftrightarrow> bossHp (state (run s cfg inputs)) = 0)"
  using hp_inv_run [OF assms, of s inputs] by (simp add: hp_inv_def)

theorem state_invariant_witness:
  "config_ok default_config
   \<and> 0 \<le> bossHp (state (run no_strings default_config example_run))
   \<and> bossHp (state (run no_strings default_config example_run))
       \<le> maxHp (state (run no_strings default_config example_run))
   \<and> (gameOver (state (run no_strings default_config example_run))
        \<longleftrightarrow> bossHp (state (run no_strings default_config example_run)) = 0)"
proof -
  have ok: "config_ok default_config"
    by (simp add: config_ok_def default_config_def)
  from state_invariant [OF ok, of no_strings example_run] ok show ?thesis by simp
qed

subsection \<open>The HP derivation\<close>

lemma hp_derived_addEvent [simp]: "hp_derived cfg (addEvent ev st) = hp_derived cfg st"
  by (simp add: hp_derived_def)

lemma hp_derived_reconciled: "hp_derived cfg (reconciled cfg now sl st)"
  by (simp add: hp_derived_def reconciled_fields)

lemma hp_derived_post_event:
  "hp_derived cfg (state w) \<Longrightarrow> hp_derived cfg (state (snd (post_event cfg now b w)))"
  using post_event_state_cases [of cfg now b w] by (auto simp: hp_derived_reconciled)

lemma hp_derived_post_admin_hp_damage:
  "hp_derived cfg (state w) \<Longrightarrow> hp_derived cfg (state (snd (post_admin_hp_damage cfg now b w)))"
  by (auto simp: post_admin_hp_damage_def Let_def hp_derived_def recompute_hp_def
      split: jsval.splits)

lemma hp_derived_post_admin_reset:
  "0 \<le> maxHp (state w) \<Longrightarrow> hp_derived cfg (state (snd (post_admin_reset cfg now w)))"
  by (simp add: post_admin_reset_def Let_def hp_derived_def)

lemma hp_derived_step:
  assumes "0 \<le> maxHp (state w)" and "hp_derived cfg (state w)" and "\<not> sets_hp inp"
  shows "hp_derived cfg (state (step s cfg w inp))"
proof (cases inp)
  case (Http now req)
  show ?thesis
    unfolding Http using assms unfolding Http
    by (cases req)
      (simp_all add: handle_def hp_derived_post_event hp_derived_post_admin_hp_damage
        hp_derived_post_admin_reset get_state_def post_admin_wled_def)
next
  case (WledDone k)
  then show ?thesis using assms(2) by simp
qed

text \<open>
  C3, as the code has it. The derivation \<open>bossHp = max 0 (maxHp - crystalCount * HP_PER_CRYSTAL)\<close>
  under \<open>hpDamageEnabled\<close> holds in every state reached without \<^verbatim>\<open>POST /admin/hp\<close> and
  \<^verbatim>\<open>POST /admin/hp/reduce\<close>; every other input preserves it; and an accepted slot report
  establishes it from any state. The two admin HP requests write \<open>bossHp\<close> directly and are
  left out: they do not preserve it.
\<close>

theorem hp_derivation_without_admin_hp:
  assumes "config_ok cfg"
  shows "((\<forall>inp \<in> set inputs. \<not> sets_hp inp) \<longrightarrow> hp_derived cfg (state (run s cfg inputs)))
       \<and> (0 \<le> maxHp (state w) \<and> hp_derived cfg (state w) \<and> \<not> sets_hp inp
            \<longrightarrow> hp_derived cfg (state (step s cfg w inp)))
       \<and> (length sl = 7 \<longrightarrow> hp_derived cfg (state (snd (post_event cfg now (report sl) w))))"
proof (intro conjI impI)
  assume free: "\<forall>inp \<in> set inputs. \<not> sets_hp inp"
  have "basic_inv cfg (state (run s cfg inputs)) \<and> hp_derived cfg (state (run s cfg inputs))"
  proof (rule run_induct_on [where Q = "\<lambda>inp. \<not> sets_hp inp"])
    show "basic_inv cfg (state (initial_world cfg)) \<and> hp_derived cfg (state (initial_world cfg))"
      using assms
      by (simp add: basic_inv_def hp_derived_def initial_world_def initial_state_def
          MAX_RECENT_EVENTS_def config_ok_def)
  next
    fix w :: world and inp
    assume "\<not> sets_hp inp" and "basic_inv cfg (state w) \<and> hp_derived cfg (state w)"
    moreover from this assms have "0 \<le> maxHp (state w)"
      by (simp add: basic_inv_def config_ok_def)
    ultimately show "basic_inv cfg (state (step s cfg w inp))
        \<and> hp_derived cfg (state (step s cfg w inp))"
      by (simp add: basic_inv_step hp_derived_step)
  qed (rule free)
  then show "hp_derived cfg (state (run s cfg inputs))" ..
next
  assume "0 \<le> maxHp (state w) \<and> hp_derived cfg (state w) \<and> \<not> sets_hp inp"
  then show "hp_derived cfg (state (step s cfg w inp))"
    by (simp add: hp_derived_step)
next
  assume "length sl = 7"
  then show "hp_derived cfg (state (snd (post_event cfg now (report sl) w)))"
    by (simp add: post_event_report SLOT_COUNT_def hp_derived_reconciled)
qed

theorem hp_derivation_without_admin_hp_witness:
  "config_ok default_config
   \<and> hpDamageEnabled (state (run no_strings default_config slot_run))
   \<and> bossHp (state (run no_strings default_config slot_run))
       = max 0 (maxHp (state (run no_strings default_config slot_run))
                 - crystalCount (state (run no_strings default_config slot_run))
                   * HP_PER_CRYSTAL default_config)"
proof -
  have ok: "config_ok default_config"
    by (simp add: config_ok_def default_config_def)
  have free: "\<forall>inp \<in> set slot_run. \<not> sets_hp inp"
    by (simp add: slot_run_def)
  have on: "hpDamageEnabled (state (run no_strings default_config slot_run))"
    by (simp add: handler_defs slot_run_def slots_0_2_def slots_2_6_def damage_off_def)
  from hp_derivation_without_admin_hp [OF ok, of slot_run no_strings] free
  have "hp_derived default_config (state (run no_strings default_config slot_run))"
    by blast
  with ok on show ?thesis by (simp add: hp_derived_def)
qed

text \<open>
  C3 as stated fails: with damage enabled and no crystal in a slot, \<^verbatim>\<open>POST /admin/hp\<close> with
  \<^verbatim>\<open>{hp: 50}\<close> leaves \<open>bossHp = 50\<close>, where the derivation gives \<open>100\<close>.
\<close>

theorem admin_hp_breaks_derivation_counterexample:
  "hpDamageEnabled (state (run no_strings default_config [Http 1 (POST_admin_hp hp_50)]))
   \<and> bossHp (state (run no_strings default_config [Http 1 (POST_admin_hp hp_50)])) = 50
   \<and> max 0 (maxHp (state (run no_strings default_config [Http 1 (POST_admin_hp hp_50)]))
             - crystalCount (state (run no_strings default_config [Http 1 (POST_admin_hp hp_50)]))
               * HP_PER_CRYSTAL default_config) = 100
   \<and> bossHp (state (run no_strings default_config [Http 1 (POST_admin_hp hp_50)]))
       \<noteq> max 0 (maxHp (state (run no_strings default_config [Http 1 (POST_admin_hp hp_50)]))
             - crystalCount (state (run no_strings default_config [Http 1 (POST_admin_hp hp_50)]))
               * HP_PER_CRYSTAL default_config)"
  by (simp add: handler_defs hp_50_def)

text \<open>
  So does \<^verbatim>\<open>POST /admin/hp/reduce\<close>: from the initial state it leaves \<open>bossHp = 95\<close>.
\<close>

lemma reduce_breaks_derivation:
  "hpDamageEnabled (state (run no_strings default_config [Http 1 POST_admin_hp_reduce]))
   \<and> bossHp (state (run no_strings default_config [Http 1 POST_admin_hp_reduce])) = 95
   \<and> max 0 (maxHp (state (run no_strings default_config [Http 1 POST_admin_hp_reduce]))
             - crystalCount (state (run no_strings default_config [Http 1 POST_admin_hp_reduce]))
               * HP_PER_CRYSTAL default_config) = 100"
  by (simp add: handler_defs)

subsection \<open>Reset\<close>

text \<open>
  C4, as the code has it. From every state, \<^verbatim>\<open>POST /admin/reset\<close> answers 200 and leaves
  \<open>bossHp = maxHp\<close>, \<open>crystalCount = 0\<close>, \<open>totalCrystalsReceived = 0\<close>, seven empty slots,
  \<open>gameOver = False\<close>, and a log that holds exactly the \<^verbatim>\<open>admin_reset\<close> record of this
  request; \<open>maxHp\<close> and \<open>hpDamageEnabled\<close> stay as they were.
\<close>

theorem reset_postcondition:
  "status (fst (post_admin_reset cfg now w)) = 200
   \<and> bossHp (state (snd (post_admin_reset cfg now w))) = maxHp (state w)
   \<and> maxHp (state (snd (post_admin_reset cfg now w))) = maxHp (state w)
   \<and> crystalCount (state (snd (post_admin_reset cfg now w))) = 0
   \<and> totalCrystalsReceived (state (snd (post_admin_reset cfg now w))) = 0
   \<and> slots (state (snd (post_admin_reset cfg now w))) = replicate 7 False
   \<and> gameOver (state (snd (post_admin_reset cfg now w))) = False
   \<and> recentEvents (state (snd (post_admin_reset cfg now w))) = [admin_reset now]
   \<and> hpDamageEnabled (state (snd (post_admin_reset cfg now w))) = hpDamageEnabled (state w)"
  by (simp add: post_admin_reset_def Let_def recentEvents_addEvent MAX_RECENT_EVENTS_def
      SLOT_COUNT_def)

text \<open>
  C4 as stated fails: after damage was switched off, a reset leaves \<open>hpDamageEnabled\<close> off,
  and the log is not empty but holds the reset's own record.
\<close>

theorem reset_keeps_flag_and_logs_counterexample:
  "recentEvents (state (run no_strings default_config
       [Http 1 (POST_admin_hp_damage damage_off), Http 2 POST_admin_reset])) = [admin_reset 2]
   \<and> recentEvents (state (run no_strings default_config
       [Http 1 (POST_admin_hp_damage damage_off), Http 2 POST_admin_reset])) \<noteq> []
   \<and> \<not> hpDamageEnabled (state (run no_strings default_config
       [Http 1 (POST_admin_hp_damage damage_off), Http 2 POST_admin_reset]))"
  by (simp add: handler_defs damage_off_def)

subsection \<open>The lifetime counter\<close>

lemma total_reconciled:
  "totalCrystalsReceived st \<le> totalCrystalsReceived (reconciled cfg now sl st)"
  by (simp add: reconciled_fields)

lemma total_post_event:
  "totalCrystalsReceived (state w) \<le> totalCrystalsReceived (state (snd (post_event cfg now b w)))"
  using post_event_state_cases [of cfg now b w] by (auto simp: total_reconciled)

lemma total_post_admin_hp:
  "totalCrystalsReceived (state (snd (post_admin_hp s now b w))) = totalCrystalsReceived (state w)"
  using post_admin_hp_cases [of s now b w] by (auto simp: state_admin_hp_accept)

lemma total_post_admin_hp_damage:
  "totalCrystalsReceived (state (snd (post_admin_hp_damage cfg now b w)))
     = totalCrystalsReceived (state w)"
  by (simp add: post_admin_hp_damage_def Let_def recompute_hp_def split: jsval.splits)

text \<open>
  C5, as the code has it. Every input other than \<^verbatim>\<open>POST /admin/reset\<close> leaves
  \<open>totalCrystalsReceived\<close> at least as large as it was, from any state; the reset sets it
  to \<open>0\<close>.
\<close>

theorem total_nondecreasing_except_reset:
  "(\<not> is_reset inp \<longrightarrow>
      totalCrystalsReceived (state w) \<le> totalCrystalsReceived (state (step s cfg w inp)))
   \<and> totalCrystalsReceived (state (step s cfg w (Http now POST_admin_reset))) = 0"
proof (intro conjI impI)
  assume nr: "\<not> is_reset inp"
  show "totalCrystalsReceived (state w) \<le> totalCrystalsReceived (state (step s cfg w inp))"
  proof (cases inp)
    case (Http t req)
    show ?thesis
      using nr unfolding Http
      by (cases req)
        (simp_all add: handle_def total_post_event total_post_admin_hp state_post_admin_hp_reduce
          total_post_admin_hp_damage get_state_def post_admin_wled_def)
  next
    case (WledDone k)
    then show ?thesis by simp
  qed
next
  show "totalCrystalsReceived (state (step s cfg w (Http now POST_admin_reset))) = 0"
    by (simp add: handle_def post_admin_reset_def Let_def)
qed

theorem total_nondecreasing_except_reset_witness:
  "\<not> is_reset (Http 2 (POST_event (report slots_2_6)))
   \<and> totalCrystalsReceived (state (run no_strings default_config
         [Http 1 (POST_event (report slots_0_2))]))
      \<le> totalCrystalsReceived (state (step no_strings default_config
           (run no_strings default_config [Http 1 (POST_event (report slots_0_2))])
           (Http 2 (POST_event (report slots_2_6)))))"
  using total_nondecreasing_except_reset
    [of "Http 2 (POST_event (report slots_2_6))"
        "run no_strings default_config [Http 1 (POST_event (report slots_0_2))]"
        no_strings default_config]
  by simp

text \<open>
  C5 as stated fails: after a report with two crystals the counter is \<open>2\<close>, and the reset
  brings it down to \<open>0\<close>.
\<close>

theorem reset_clears_total_counterexample:
  "totalCrystalsReceived (state (run no_strings default_config
       [Http 1 (POST_event (report slots_0_2))])) = 2
   \<and> totalCrystalsReceived (state (step no_strings default_config
       (run no_strings default_config [Http 1 (POST_event (report slots_0_2))])
       (Http 2 POST_admin_reset))) = 0
   \<and> \<not> totalCrystalsReceived (state (run no_strings default_config
         [Http 1 (POST_event (report slots_0_2))]))
       \<le> totalCrystalsReceived (state (step no_strings default_config
           (run no_strings default_config [Http 1 (POST_event (report slots_0_2))])
           (Http 2 POST_admin_reset)))"
  by (simp add: handler_defs slots_0_2_def)

subsection \<open>Refused slot reports\<close>

text \<open>
  C6. Whatever the state and the request body, if the body's \<^verbatim>\<open>type\<close> is not the string
  \<^verbatim>\<open>crystal\<close>, or its \<^verbatim>\<open>slots\<close> is not an array of exactly seven entries, then
  \<^verbatim>\<open>POST /event\<close> answers 400 with \<^verbatim>\<open>{ok: false, error: msg}\<close> for a non-empty message, and
  the whole process state (the game state, and with it the lighting adapter and the
  broadcasts) is the one before the request.
\<close>

theorem invalid_report_rejected:
  assumes "get_prop b ''type'' \<noteq> JStr ''crystal'' \<or> \<not> seven_entries (get_prop b ''slots'')"
  shows "\<exists>msg. msg \<noteq> [] \<and>
           post_event cfg now b w =
             (\<lparr>status = 400, body = JObj [(''ok'', JBool False), (''error'', JStr msg)]\<rparr>, w)"
proof (cases "get_prop b ''type'' = JStr ''crystal''")
  case False
  then have "post_event cfg now b w = (\<lparr>status = 400, body = error_json msg_need_type\<rparr>, w)"
    by (simp add: post_event_reject_type)
  moreover have "msg_need_type \<noteq> []"
    by (simp add: msg_need_type_def)
  ultimately show ?thesis
    unfolding error_json_def by blast
next
  case True
  with assms have "\<not> seven_entries (get_prop b ''slots'')" by simp
  then have "\<forall>raw. get_prop (or_empty b) ''slots'' = JArr raw \<longrightarrow> length raw \<noteq> SLOT_COUNT"
    by (auto simp: seven_entries_def SLOT_COUNT_def)
  with True have "post_event cfg now b w = (\<lparr>status = 400, body = error_json msg_need_slots\<rparr>, w)"
    by (simp add: post_event_reject_slots)
  moreover have "msg_need_slots \<noteq> []"
    by (simp add: msg_need_slots_def)
  ultimately show ?thesis
    unfolding error_json_def by blast
qed

theorem invalid_report_rejected_witness:
  "\<not> seven_entries (get_prop five_slots ''slots'')
   \<and> (\<exists>msg. msg \<noteq> [] \<and>
         post_event default_config 1 five_slots (run no_strings default_config example_run) =
           (\<lparr>status = 400, body = JObj [(''ok'', JBool False), (''error'', JStr msg)]\<rparr>,
            run no_strings default_config example_run))"
proof -
  have h: "\<not> seven_entries (get_prop five_slots ''slots'')"
    by (simp add: seven_entries_def five_slots_def)
  then have "get_prop five_slots ''type'' \<noteq> JStr ''crystal''
      \<or> \<not> seven_entries (get_prop five_slots ''slots'')" ..
  from invalid_report_rejected [OF this] h show ?thesis by blast
qed

subsection \<open>POST /admin/hp\<close>

text \<open>
  Where \<^verbatim>\<open>Number\<close> returns: on every primitive but a string, and on every object with no own
  \<^verbatim>\<open>toString\<close>. Where it throws the handler sends nothing of its own and writes nothing.
\<close>

lemma Number_js_returns:
  "Number_js s JUndefined = Inr NaN"
  "Number_js s JNull = Inr (Finite 0)"
  "Number_js s (JBool True) = Inr (Finite 1)"
  "Number_js s (JBool False) = Inr (Finite 0)"
  "Number_js s (JNum n) = Inr n"
  "''toString'' \<notin> set (map fst kvs) \<Longrightarrow> Number_js s (JObj kvs) = Inr NaN"
  by simp_all

lemma post_admin_hp_throws_example:
  "post_admin_hp s now hp_no_toString w = (Inl TypeError, w)"
  by (simp add: post_admin_hp_def hp_no_toString_def)

text \<open>
  C7, as the code has it. Let \<^verbatim>\<open>Number(req.body?.hp)\<close> return the number \<open>n\<close>, and \<open>maxHp\<close> be
  non-negative. The request is answered 400 with \<^verbatim>\<open>Invalid hp\<close>, the state unchanged, exactly
  when \<open>n\<close> is \<^verbatim>\<open>NaN\<close> or negative; otherwise it is answered 200 with the new \<open>bossHp\<close>, which
  is \<open>n\<close> floored and clamped into \<open>[0, maxHp]\<close>, and \<open>gameOver\<close> becomes \<open>bossHp = 0\<close>. A
  missing \<^verbatim>\<open>hp\<close> is refused, a finite number is refused exactly when it is negative, and
  \<^verbatim>\<open>null\<close> is accepted as \<open>0\<close>: the handler coerces, it does not ask for a number. The
  bodies on which \<^verbatim>\<open>Number\<close> throws are left aside.
\<close>

theorem admin_hp_validation:
  assumes "0 \<le> maxHp (state w)" and "Number_js s (opt_prop b ''hp'') = Inr n"
  shows "((fst (post_admin_hp s now b w)
             = Inr \<lparr>status = 400, body = error_json ''Invalid hp''\<rparr>) = hp_refused n)
       \<and> (hp_refused n \<longrightarrow> snd (post_admin_hp s now b w) = w)
       \<and> (\<not> hp_refused n \<longrightarrow>
            fst (post_admin_hp s now b w)
              = Inr \<lparr>status = 200,
                     body = JObj [(''ok'', JBool True),
                                  (''bossHp'', num (floor_clamp (maxHp (state w)) n))]\<rparr>
            \<and> bossHp (state (snd (post_admin_hp s now b w))) = floor_clamp (maxHp (state w)) n
            \<and> gameOver (state (snd (post_admin_hp s now b w)))
                = (bossHp (state (snd (post_admin_hp s now b w))) = 0))
       \<and> (opt_prop b ''hp'' = JUndefined \<longrightarrow> hp_refused n)
       \<and> (opt_prop b ''hp'' = JNum (Finite q) \<longrightarrow> hp_refused n = (q < 0))
       \<and> (opt_prop b ''hp'' = JNull \<longrightarrow> n = Finite 0 \<and> \<not> hp_refused n)"
proof -
  have clamp: "0 \<le> floor_clamp (maxHp (state w)) n"
    by (simp add: floor_clamp_def split: jsnum.splits)
  have ref: "hp_refused n \<Longrightarrow>
      post_admin_hp s now b w = (Inr \<lparr>status = 400, body = error_json ''Invalid hp''\<rparr>, w)"
    using assms(2) by (rule post_admin_hp_refused)
  have acc: "\<not> hp_refused n \<Longrightarrow>
      post_admin_hp s now b w
        = returns (admin_hp_accept now (floor_clamp (maxHp (state w)) n) w)"
    using assms by (simp add: post_admin_hp_accepted)
  have reply: "fst (admin_hp_accept now v w)
      = \<lparr>status = 200, body = JObj [(''ok'', JBool True), (''bossHp'', num v)]\<rparr>" for v
    by (simp add: admin_hp_accept_def Let_def)
  have c1: "(fst (post_admin_hp s now b w)
      = Inr \<lparr>status = 400, body = error_json ''Invalid hp''\<rparr>) = hp_refused n"
    by (cases "hp_refused n") (simp_all add: ref acc reply)
  have c2: "hp_refused n \<Longrightarrow> snd (post_admin_hp s now b w) = w"
    by (simp add: ref)
  have c3: "\<not> hp_refused n \<Longrightarrow>
      fst (post_admin_hp s now b w)
        = Inr \<lparr>status = 200,
               body = JObj [(''ok'', JBool True),
                            (''bossHp'', num (floor_clamp (maxHp (state w)) n))]\<rparr>
      \<and> bossHp (state (snd (post_admin_hp s now b w))) = floor_clamp (maxHp (state w)) n
      \<and> gameOver (state (snd (post_admin_hp s now b w)))
          = (bossHp (state (snd (post_admin_hp s now b w))) = 0)"
    using clamp by (simp add: acc reply state_admin_hp_accept)
  have c4: "opt_prop b ''hp'' = JUndefined \<Longrightarrow> hp_refused n"
    using assms(2) by (auto simp: hp_refused_def)
  have c5: "opt_prop b ''hp'' = JNum (Finite q) \<Longrightarrow> hp_refused n = (q < 0)"
    using assms(2) by (auto simp: hp_refused_def)
  have c6: "opt_prop b ''hp'' = JNull \<Longrightarrow> n = Finite 0 \<and> \<not> hp_refused n"
    using assms(2) by (auto simp: hp_refused_def)
  from c1 c2 c3 c4 c5 c6 show ?thesis
    by blast
qed

theorem admin_hp_validation_witness:
  "0 \<le> maxHp (state (initial_world default_config))
   \<and> Number_js no_strings (opt_prop hp_50 ''hp'') = Inr (Finite 50)
   \<and> \<not> hp_refused (Finite 50)
   \<and> fst (post_admin_hp no_strings 1 hp_50 (initial_world default_config))
       = Inr \<lparr>status = 200, body = JObj [(''ok'', JBool True), (''bossHp'', num 50)]\<rparr>
   \<and> bossHp (state (snd (post_admin_hp no_strings 1 hp_50 (initial_world default_config)))) = 50"
proof -
  have m: "0 \<le> maxHp (state (initial_world default_config))"
    by (simp add: initial_world_def initial_state_def default_config_def)
  have n: "Number_js no_strings (opt_prop hp_50 ''hp'') = Inr (Finite 50)"
    by (simp add: hp_50_def)
  have a: "\<not> hp_refused (Finite 50)"
    by (simp add: hp_refused_def)
  have c: "floor_clamp (maxHp (state (initial_world default_config))) (Finite 50) = 50"
    by (simp add: floor_clamp_def initial_world_def initial_state_def default_config_def)
  from admin_hp_validation [OF m n, of 1] m n a c show ?thesis by simp
qed

text \<open>
  C7 as stated fails: \<^verbatim>\<open>{hp: null}\<close> carries no number, and the handler answers 200, not
  400, and sets the boss HP to \<open>0\<close>, which ends the game.
\<close>

theorem admin_hp_null_accepted_counterexample:
  "fst (post_admin_hp no_strings 1 hp_null (initial_world default_config))
     = Inr \<lparr>status = 200, body = JObj [(''ok'', JBool True), (''bossHp'', num 0)]\<rparr>
   \<and> fst (post_admin_hp no_strings 1 hp_null (initial_world default_config))
       \<noteq> Inr \<lparr>status = 400, body = error_json ''Invalid hp''\<rparr>
   \<and> bossHp (state (snd (post_admin_hp no_strings 1 hp_null (initial_world default_config)))) = 0
   \<and> gameOver (state (snd (post_admin_hp no_strings 1 hp_null (initial_world default_config))))"
  by (simp add: handler_defs hp_null_def)

subsection \<open>The event log\<close>

text \<open>
  C8. In every state the server reaches the log holds at most 20 records. \<open>addEvent\<close> puts
  the new record first; a log of fewer than 20 records keeps all its records behind it, in
  their order, and a log of 20 loses exactly its last record, the oldest.
\<close>

theorem event_log_bound_and_order:
  "length (recentEvents (state (run s cfg inputs))) \<le> 20
   \<and> hd (recentEvents (addEvent ev st)) = ev
   \<and> (length (recentEvents st) < 20 \<longrightarrow> recentEvents (addEvent ev st) = ev # recentEvents st)
   \<and> (length (recentEvents st) = 20 \<longrightarrow>
        recentEvents (addEvent ev st) = ev # butlast (recentEvents st))"
  using basic_inv_run [of cfg s inputs]
  by (simp add: basic_inv_def recentEvents_addEvent MAX_RECENT_EVENTS_def)

theorem event_log_bound_and_order_witness:
  "length (recentEvents (state (run no_strings default_config example_run))) \<le> 20
   \<and> length (recentEvents full_log) = 20
   \<and> recentEvents (addEvent (admin_reset 0) full_log)
       = admin_reset 0 # butlast (recentEvents full_log)"
  using event_log_bound_and_order [of no_strings default_config example_run "admin_reset 0" full_log]
  by (simp add: full_log_def)

subsection \<open>Slot reports after game over\<close>

text \<open>
  C9. In a reachable state with \<open>gameOver\<close>, a report of seven booleans is answered 200 with
  \<^verbatim>\<open>ok: true\<close> and reconciled in full: the slots are replaced, \<open>crystalCount\<close> is the number of
  occupied slots, \<open>totalCrystalsReceived\<close> grows by the number of inserts, the insert and
  remove events go on the log (capped at 20), and with damage enabled the boss HP is derived
  anew, floored at \<open>0\<close>. (The earlier snapshot in the file ignored events once the game was
  over; the later one has no such branch.)
\<close>

theorem game_over_not_frozen:
  assumes "gameOver (state (run s cfg inputs))" and "length sl = 7"
  shows "status (fst (post_event cfg now (report sl) (run s cfg inputs))) = 200
       \<and> get_prop (body (fst (post_event cfg now (report sl) (run s cfg inputs)))) ''ok'' = JBool True
       \<and> slots (state (snd (post_event cfg now (report sl) (run s cfg inputs)))) = sl
       \<and> crystalCount (state (snd (post_event cfg now (report sl) (run s cfg inputs))))
           = int (count_list sl True)
       \<and> totalCrystalsReceived (state (snd (post_event cfg now (report sl) (run s cfg inputs))))
           = totalCrystalsReceived (state (run s cfg inputs))
             + int (length (filter is_insert
                 (slot_events cfg now (slots (state (run s cfg inputs))) sl)))
       \<and> recentEvents (state (snd (post_event cfg now (report sl) (run s cfg inputs))))
           = take 20 (rev (slot_events cfg now (slots (state (run s cfg inputs))) sl)
                      @ recentEvents (state (run s cfg inputs)))
       \<and> bossHp (state (snd (post_event cfg now (report sl) (run s cfg inputs))))
           = (if hpDamageEnabled (state (run s cfg inputs))
              then max 0 (maxHp (state (run s cfg inputs))
                          - int (count_list sl True) * HP_PER_CRYSTAL cfg)
              else bossHp (state (run s cfg inputs)))"
proof -
  define w where "w = run s cfg inputs"
  have inv: "basic_inv cfg (state w)"
    unfolding w_def by (rule basic_inv_run)
  then have len: "length (slots (state w)) = 7" and cap: "length (recentEvents (state w)) \<le> MAX_RECENT_EVENTS"
    by (simp_all add: basic_inv_def SLOT_COUNT_def)
  have ev: "transitions_from cfg now (slots (state w)) sl 0 = slot_events cfg now (slots (state w)) sl"
    using len assms(2) by (rule transitions_from_slot_events)
  have post: "post_event cfg now (report sl) w =
      (\<lparr>status = 200, body = event_ok_json (reconciled cfg now sl (state w))\<rparr>,
       broadcastState (updateWLEDFromSlots cfg sl (w\<lparr>state := reconciled cfg now sl (state w)\<rparr>)))"
    using assms(2) by (simp add: post_event_report SLOT_COUNT_def)
  show ?thesis
    unfolding w_def [symmetric] post
    using cap
    by (simp add: reconciled_fields ev fold_addEvent_log count_list_True event_ok_json_def
        MAX_RECENT_EVENTS_def)
qed

theorem game_over_not_frozen_witness:
  "gameOver (state (run no_strings default_config [Http 1 (POST_admin_hp hp_zero)]))
   \<and> length slots_0_2 = 7
   \<and> status (fst (post_event default_config 2 (report slots_0_2)
        (run no_strings default_config [Http 1 (POST_admin_hp hp_zero)]))) = 200
   \<and> slots (state (snd (post_event default_config 2 (report slots_0_2)
        (run no_strings default_config [Http 1 (POST_admin_hp hp_zero)])))) = slots_0_2
   \<and> crystalCount (state (snd (post_event default_config 2 (report slots_0_2)
        (run no_strings default_config [Http 1 (POST_admin_hp hp_zero)])))) = 2"
proof -
  have g: "gameOver (state (run no_strings default_config [Http 1 (POST_admin_hp hp_zero)]))"
    by (simp add: handler_defs hp_zero_def)
  have l: "length slots_0_2 = 7"
    by (simp add: slots_0_2_def)
  have c: "count_list slots_0_2 True = 2"
    by (simp add: slots_0_2_def)
  from game_over_not_frozen [OF g l, of 2] g l c show ?thesis by simp
qed

subsection \<open>Lighting\<close>

lemma lighting_state_update [simp]: "lighting (w\<lparr>state := st\<rparr>) = lighting w"
  by (simp add: lighting_def)

lemma lighting_broadcastState [simp]: "lighting (broadcastState w) = lighting w"
  by (simp add: lighting_def broadcastState_def)

lemma lighting_update_state [simp]:
  "lighting (updateWLEDFromSlots cfg sl (w\<lparr>state := st\<rparr>)) = lighting (updateWLEDFromSlots cfg sl w)"
  by (simp add: lighting_def updateWLEDFromSlots_def initWLEDSegments_def send_slots_def sendWLED_def)

lemma lighting_post_admin_hp: "lighting (snd (post_admin_hp s now b w)) = lighting w"
  using post_admin_hp_cases [of s now b w] by (auto simp: admin_hp_accept_def Let_def)

lemma lighting_post_admin_hp_reduce: "lighting (snd (post_admin_hp_reduce now w)) = lighting w"
  by (simp add: post_admin_hp_reduce_def Let_def)

lemma lighting_post_admin_hp_damage: "lighting (snd (post_admin_hp_damage cfg now b w)) = lighting w"
  by (simp add: post_admin_hp_damage_def Let_def split: jsval.splits)

lemma lighting_post_admin_reset:
  "lighting (snd (post_admin_reset cfg now w))
     = lighting (updateWLEDFromSlots cfg (replicate 7 False) w)"
  by (simp add: post_admin_reset_def Let_def SLOT_COUNT_def)

lemma lighting_post_event_report:
  "length sl = 7 \<Longrightarrow>
   lighting (snd (post_event cfg now (report sl) w)) = lighting (updateWLEDFromSlots cfg sl w)"
  by (simp add: post_event_report SLOT_COUNT_def)

lemma wled_sent_update:
  "WLED_URL cfg \<noteq> [] \<Longrightarrow>
   wled_sent (updateWLEDFromSlots cfg sl w)
     = wled_sent w @ [if wledSegsReady w then slots_json sl else init_step1_json]"
  by (simp add: updateWLEDFromSlots_def initWLEDSegments_def send_slots_def sendWLED_def)

text \<open>
  C10. \<^verbatim>\<open>POST /admin/hp\<close>, \<^verbatim>\<open>POST /admin/hp/reduce\<close> and \<^verbatim>\<open>POST /admin/hp-damage\<close> send nothing
  to the lighting device, start no callback and leave the ready latch as it is, in every
  state and for every body; so does \<^verbatim>\<open>GET /state\<close>. The lighting update
  (\<open>updateWLEDFromSlots\<close>) is run by the reset and by an accepted slot report, and with a
  device configured it sends one request: the slot colours when the segments are ready,
  step 1 of the segment set-up otherwise. \<^verbatim>\<open>POST /admin/wled\<close> is the manual override: it
  forwards its body as it is, with no callback, and leaves the latch.
\<close>

theorem admin_hp_no_lighting:
  "lighting (snd (post_admin_hp s now b1 w)) = lighting w
   \<and> lighting (snd (post_admin_hp_reduce now w)) = lighting w
   \<and> lighting (snd (post_admin_hp_damage cfg now b2 w)) = lighting w
   \<and> lighting (snd (get_state w)) = lighting w
   \<and> lighting (snd (post_admin_reset cfg now w))
       = lighting (updateWLEDFromSlots cfg (replicate 7 False) w)
   \<and> (length sl = 7 \<longrightarrow>
        lighting (snd (post_event cfg now (report sl) w)) = lighting (updateWLEDFromSlots cfg sl w))
   \<and> (WLED_URL cfg \<noteq> [] \<longrightarrow>
        wled_sent (updateWLEDFromSlots cfg sl w)
          = wled_sent w @ [if wledSegsReady w then slots_json sl else init_step1_json])
   \<and> lighting (snd (post_admin_wled cfg b3 w)) = lighting (sendWLED cfg (or_empty b3) no_cb w)
   \<and> wledSegsReady (sendWLED cfg (or_empty b3) no_cb w) = wledSegsReady w"
  by (simp add: lighting_post_admin_hp lighting_post_admin_hp_reduce lighting_post_admin_hp_damage
      lighting_post_admin_reset lighting_post_event_report wled_sent_update get_state_def
      post_admin_wled_def sendWLED_def)

theorem admin_hp_no_lighting_witness:
  "WLED_URL wled_config \<noteq> [] \<and> length slots_0_2 = 7
   \<and> lighting (snd (post_admin_hp no_strings 1 hp_50 (initial_world wled_config))) = (False, [], [])
   \<and> lighting (snd (post_admin_hp_reduce 1 (initial_world wled_config))) = (False, [], [])
   \<and> lighting (snd (post_admin_hp_damage wled_config 1 damage_off (initial_world wled_config)))
       = (False, [], [])
   \<and> wled_sent (snd (post_event wled_config 1 (report slots_0_2) (initial_world wled_config)))
       = [init_step1_json]"
proof -
  have u: "WLED_URL wled_config \<noteq> []"
    by (simp add: wled_config_def)
  have l: "length slots_0_2 = 7"
    by (simp add: slots_0_2_def)
  have i: "lighting (initial_world wled_config) = (False, [], [])"
    by (simp add: lighting_def initial_world_def)
  from admin_hp_no_lighting
    [of no_strings 1 hp_50 "initial_world wled_config" wled_config damage_off slots_0_2]
  have "lighting (snd (post_admin_hp no_strings 1 hp_50 (initial_world wled_config))) = (False, [], [])"
    and "lighting (snd (post_admin_hp_reduce 1 (initial_world wled_config))) = (False, [], [])"
    and "lighting (snd (post_admin_hp_damage wled_config 1 damage_off (initial_world wled_config)))
       = (False, [], [])"
    and "lighting (snd (post_event wled_config 1 (report slots_0_2) (initial_world wled_config)))
       = lighting (updateWLEDFromSlots wled_config slots_0_2 (initial_world wled_config))"
    and "wled_sent (updateWLEDFromSlots wled_config slots_0_2 (initial_world wled_config))
       = [init_step1_json]"
    using u l i by (simp_all add: initial_world_def)
  then show ?thesis
    using u l by (simp add: lighting_def)
qed

end
